theory Spec2Isabelle
  imports Main "HOL-Library.Word"
begin

unbundle bit_operations_syntax

section \<open>Data model of fileops.c\<close>

text \<open>
  An \<open>entry_t\<close> (declared in entry.h) as fileops.c reads it: the path of the virtual
  file without its leading slash, the command that backs it, and nine permission flags.
  C strings are modelled as \<open>string\<close> (the bytes before the terminating NUL), so
  \<open>strcmp(a, b) == 0\<close> is equality.
\<close>

record entry =
  path :: string
  command :: string
  u_r :: bool
  u_w :: bool
  u_x :: bool
  g_r :: bool
  g_w :: bool
  g_x :: bool
  o_r :: bool
  o_w :: bool
  o_x :: bool

text \<open>
  The caller's identity, as \<open>fuse_get_context()\<close> returns it (\<open>context->uid\<close>,
  \<open>context->gid\<close>; both are 32-bit ids).
\<close>

record fuse_context =
  ctx_uid :: "32 word"
  ctx_gid :: "32 word"

text \<open>
  The two fields of \<open>struct fuse_file_info\<close> that the file uses: the open flags and the
  file handle, which holds the \<open>FILE *\<close> that \<open>popen\<close> returned, as a 64-bit integer.
\<close>

record fuse_file_info =
  flags :: "32 word"
  fh :: "64 word"

text \<open>The fields of \<open>struct stat\<close> that \<open>exec_getattr\<close> assigns.\<close>

record stat =
  st_uid :: "32 word"
  st_gid :: "32 word"
  st_atime :: int
  st_mtime :: int
  st_ctime :: int
  st_mode :: "32 word"
  st_size :: int
  st_nlink :: nat

text \<open>
  One call of the \<open>LOG\<close> macro (log.h): its format string and its arguments.
\<close>

datatype log_arg = LStr string | LInt int | LPtr "64 word"

type_synonym log_line = "string \<times> log_arg list"

text \<open>
  The calls into the C library that act on a backing stream, in the order they are made.
\<close>

datatype os_call =
    Popen string string
  | Pclose "64 word"
  | Fflush "64 word"
  | Fsync "64 word"
  | Fread "64 word" "64 word"
  | Fwrite "64 word" "8 word list"

text \<open>
  The process-wide state: the globals of globals.h that fileops.c reads (\<open>entries\<close>
  with \<open>entries_sz\<close> its length, the mounter's \<open>uid\<close> and \<open>gid\<close>, and the configured
  \<open>size\<close>, here \<open>size_g\<close>), the log, and the trace of stream calls.
\<close>

record state =
  entries :: "entry list"
  uid :: "32 word"
  gid :: "32 word"
  size_g :: int
  logged :: "log_line list"
  calls :: "os_call list"

text \<open>
  What the C library answers. \<open>popen_r cmd mode\<close> is the stream \<open>popen\<close> returns
  (0 for \<open>NULL\<close>); \<open>fflush_r h\<close> is the result of \<open>fflush\<close>; \<open>fsync_r h\<close> that of
  \<open>fsync(fileno(h))\<close>; \<open>fread_r h n\<close> gives the bytes that \<open>fread\<close> stores for a request
  of \<open>n\<close> bytes (their number is what it returns) and whether the stream's error
  indicator is set afterwards; \<open>fwrite_r h bs\<close> gives the number of bytes that \<open>fwrite\<close>
  reports written and the error indicator; \<open>time_r\<close> is \<open>time(NULL)\<close> and \<open>errno_r\<close>
  the value of \<open>errno\<close> after the call.
\<close>

record os =
  popen_r :: "string \<Rightarrow> string \<Rightarrow> 64 word"
  fflush_r :: "64 word \<Rightarrow> int"
  fsync_r :: "64 word \<Rightarrow> int"
  fread_r :: "64 word \<Rightarrow> 64 word \<Rightarrow> 8 word list \<times> bool"
  fwrite_r :: "64 word \<Rightarrow> 8 word list \<Rightarrow> 64 word \<times> bool"
  time_r :: int
  errno_r :: int

subsection \<open>Constants of the headers\<close>

text \<open>The values of \<open>errno.h\<close>, \<open>fcntl.h\<close> and \<open>sys/stat.h\<close> on Linux.\<close>

definition ENOENT :: int where "ENOENT = 2"
definition EBADF :: int where "EBADF = 9"
definition EACCES :: int where "EACCES = 13"
definition ENOTDIR :: int where "ENOTDIR = 20"

definition O_RDONLY :: "32 word" where "O_RDONLY = 0"
definition O_WRONLY :: "32 word" where "O_WRONLY = 1"
definition O_RDWR :: "32 word" where "O_RDWR = 2"

definition S_IFMT :: "32 word" where "S_IFMT = 0xF000"
definition S_IFDIR :: "32 word" where "S_IFDIR = 0x4000"
definition S_IFREG :: "32 word" where "S_IFREG = 0x8000"
definition S_IRUSR :: "32 word" where "S_IRUSR = 0x100"
definition S_IWUSR :: "32 word" where "S_IWUSR = 0x80"
definition S_IXUSR :: "32 word" where "S_IXUSR = 0x40"
definition S_IRGRP :: "32 word" where "S_IRGRP = 0x20"
definition S_IWGRP :: "32 word" where "S_IWGRP = 0x10"
definition S_IXGRP :: "32 word" where "S_IXGRP = 0x8"
definition S_IROTH :: "32 word" where "S_IROTH = 0x4"
definition S_IWOTH :: "32 word" where "S_IWOTH = 0x2"
definition S_IXOTH :: "32 word" where "S_IXOTH = 0x1"
definition ACCESSPERMS :: "32 word" where "ACCESSPERMS = 0x1FF"

subsection \<open>Macros of fileops.c\<close>

text \<open>\<open>1UL << n\<close>: an unsigned long.\<close>

definition BIT :: "nat \<Rightarrow> 64 word" where
  "BIT n = push_bit n 1"

definition R :: "64 word" where "R = BIT 2"
definition W :: "64 word" where "W = BIT 1"
definition X :: "64 word" where "X = BIT 0"

definition RIGHTS_MASK :: "32 word" where "RIGHTS_MASK = 0x3"

definition LOG :: "string \<Rightarrow> log_arg list \<Rightarrow> state \<Rightarrow> state" where
  "LOG fmt args s = s\<lparr>logged := logged s @ [(fmt, args)]\<rparr>"

text \<open>
  The file's own \<open>assert\<close> (the build without \<open>NDEBUG\<close>): a failed assertion logs
  file, line, function and expression, and the callback returns -1. \<open>assert_log\<close> is
  the logging half; each callback returns -1 beside it.
\<close>

definition assert_log :: "int \<Rightarrow> string \<Rightarrow> string \<Rightarrow> state \<Rightarrow> state" where
  "assert_log line func expr s =
     LOG (''%s:%d: %s: Assertion `%s'' @ [CHR 0x27] @ '' failed'')
       [LStr ''fileops.c'', LInt line, LStr func, LStr expr] s"

section \<open>Path resolution\<close>

definition is_root :: "string \<Rightarrow> bool" where
  "is_root p = (''/'' = p)"

text \<open>
  The linear search of \<open>find_entry\<close>, from the first entry on: \<open>rest\<close> is \<open>path + 1\<close>.
\<close>

fun find_entry_loop :: "string \<Rightarrow> entry list \<Rightarrow> entry option" where
  "find_entry_loop rest [] = None"
| "find_entry_loop rest (e # es) =
     (if rest = path e then Some e else find_entry_loop rest es)"

text \<open>
  \<open>path[0] != '/'\<close> also holds of the empty path, whose first byte is the NUL.
\<close>

definition find_entry :: "state \<Rightarrow> string \<Rightarrow> entry option" where
  "find_entry s p =
     (case p of
        [] \<Rightarrow> None
      | c # rest \<Rightarrow>
          if c \<noteq> CHR ''/'' then None else find_entry_loop rest (entries s))"

text \<open>
  The lookup that \<open>exec_getattr\<close>, \<open>exec_flush\<close>, \<open>exec_fsync\<close> and the no-op stubs
  all start with: \<open>is_root\<close> first, then \<open>find_entry\<close>.
\<close>

datatype resolution = Root | Entry entry | NotFound

definition resolve :: "state \<Rightarrow> string \<Rightarrow> resolution" where
  "resolve s p =
     (if is_root p then Root
      else case find_entry s p of None \<Rightarrow> NotFound | Some e \<Rightarrow> Entry e)"

section \<open>Access rights\<close>

definition access_rights :: "state \<Rightarrow> fuse_context \<Rightarrow> entry \<Rightarrow> 32 word" where
  "access_rights s context e =
     (if ctx_uid context = uid s then
        ucast ((if u_r e then R else 0) OR (if u_w e then W else 0) OR (if u_x e then X else 0))
      else if ctx_gid context = gid s then
        ucast ((if g_r e then R else 0) OR (if g_w e then W else 0) OR (if g_x e then X else 0))
      else
        ucast ((if o_r e then R else 0) OR (if o_w e then W else 0) OR (if o_x e then X else 0)))"

text \<open>
  The rights as the specification words them: a triple of read, write and execute, taken
  from the owner, group or other flags by the first rule that matches.
\<close>

definition rights_for :: "state \<Rightarrow> fuse_context \<Rightarrow> entry \<Rightarrow> bool \<times> bool \<times> bool" where
  "rights_for s context e =
     (if ctx_uid context = uid s then (u_r e, u_w e, u_x e)
      else if ctx_gid context = gid s then (g_r e, g_w e, g_x e)
      else (o_r e, o_w e, o_x e))"

text \<open>Reading a rights word back into the triple.\<close>

definition rights_bits :: "32 word \<Rightarrow> bool \<times> bool \<times> bool" where
  "rights_bits r = (ucast r AND R \<noteq> 0, ucast r AND W \<noteq> 0, ucast r AND X \<noteq> 0)"

section \<open>The callbacks\<close>

subsection \<open>flush and fsync\<close>

definition exec_flush ::
  "os \<Rightarrow> state \<Rightarrow> string \<Rightarrow> fuse_file_info option \<Rightarrow> int \<times> state" where
  "exec_flush os s p fi =
     (if is_root p then (0, s)
      else case find_entry s p of
        None \<Rightarrow> (- ENOENT, s)
      | Some e \<Rightarrow>
          (case fi of
             None \<Rightarrow> (- 1, assert_log 105 ''exec_flush'' ''fi != NULL'' s)
           | Some f \<Rightarrow>
               if fh f = 0 then (- 1, assert_log 106 ''exec_flush'' ''fi->fh != 0'' s)
               else (fflush_r os (fh f), s\<lparr>calls := calls s @ [Fflush (fh f)]\<rparr>)))"

definition exec_fsync ::
  "os \<Rightarrow> state \<Rightarrow> string \<Rightarrow> int \<Rightarrow> fuse_file_info option \<Rightarrow> int \<times> state" where
  "exec_fsync os s p datasync fi =
     (if is_root p then (0, s)
      else case find_entry s p of
        None \<Rightarrow> (- ENOENT, s)
      | Some e \<Rightarrow>
          (case fi of
             None \<Rightarrow> (- 1, assert_log 120 ''exec_fsync'' ''fi != NULL'' s)
           | Some f \<Rightarrow>
               if fh f = 0 then (- 1, assert_log 121 ''exec_fsync'' ''fi->fh != 0'' s)
               else (fsync_r os (fh f), s\<lparr>calls := calls s @ [Fsync (fh f)]\<rparr>)))"

subsection \<open>getattr\<close>

definition exec_getattr ::
  "os \<Rightarrow> state \<Rightarrow> string \<Rightarrow> stat option \<Rightarrow> int \<times> stat option \<times> state" where
  "exec_getattr os s p stbuf =
     (case stbuf of
        None \<Rightarrow> (- 1, None, assert_log 130 ''exec_getattr'' ''stbuf != NULL'' s)
      | Some st0 \<Rightarrow>
          let st1 = st0\<lparr>st_uid := uid s, st_gid := gid s\<rparr>;
              st2 = st1\<lparr>st_atime := time_r os, st_mtime := time_r os, st_ctime := time_r os\<rparr>
          in if is_root p then
               (0, Some (st2\<lparr>st_mode :=
                    S_IFDIR OR S_IRUSR OR S_IXUSR OR S_IRGRP OR S_IXGRP OR S_IROTH OR S_IXOTH,
                  st_size := 0, st_nlink := 1\<rparr>), s)
             else case find_entry s p of
               None \<Rightarrow> (- ENOENT, Some st2, s)
             | Some e \<Rightarrow>
                 (0, Some (st2\<lparr>st_mode :=
                      S_IFREG
                      OR (if u_r e then S_IRUSR else 0)
                      OR (if u_w e then S_IWUSR else 0)
                      OR (if u_x e then S_IXUSR else 0)
                      OR (if g_r e then S_IRGRP else 0)
                      OR (if g_w e then S_IWGRP else 0)
                      OR (if g_x e then S_IXGRP else 0)
                      OR (if o_r e then S_IROTH else 0)
                      OR (if o_w e then S_IWOTH else 0)
                      OR (if o_x e then S_IXOTH else 0),
                    st_size := size_g s, st_nlink := 1\<rparr>), s))"

subsection \<open>open\<close>

text \<open>
  The result is the return value, the \<open>fuse_file_info\<close> (whose \<open>fh\<close> the callback
  assigns, also when \<open>popen\<close> returned \<open>NULL\<close>) and the state.
\<close>

definition exec_open ::
  "os \<Rightarrow> fuse_context \<Rightarrow> state \<Rightarrow> string \<Rightarrow> fuse_file_info option
     \<Rightarrow> int \<times> fuse_file_info option \<times> state" where
  "exec_open os context s p fi =
     (case find_entry s p of
        None \<Rightarrow> (- ENOENT, fi, s)
      | Some e \<Rightarrow>
          (case fi of
             None \<Rightarrow> (- 1, fi, assert_log 185 ''exec_open'' ''fi != NULL'' s)
           | Some f \<Rightarrow>
               let entry_rights = access_rights s context e;
                   rights = flags f AND RIGHTS_MASK
               in if ((rights = O_RDONLY \<or> rights = O_RDWR) \<and> ucast entry_rights AND R = 0) \<or>
                     ((rights = O_WRONLY \<or> rights = O_RDWR) \<and> ucast entry_rights AND W = 0)
                  then (- EACCES, fi, s)
                  else
                    let s1 = LOG ''Opening %s (%s) for %s''
                               [LStr p, LStr (command e),
                                LStr (if rights = O_RDONLY then ''read''
                                      else if rights = O_WRONLY then ''write''
                                      else ''read/write'')] s;
                        m = (if rights = O_RDONLY then ''r'' else ''w'');
                        h = popen_r os (command e) m;
                        s2 = s1\<lparr>calls := calls s1 @ [Popen (command e) m]\<rparr>;
                        f' = f\<lparr>fh := h\<rparr>
                    in if h = 0 then
                         (- EBADF, Some f', LOG ''Failed to popen %s'' [LStr (command e)] s2)
                       else
                         (0, Some f', LOG ''Handle %p returned from popen'' [LPtr h] s2)))"

subsection \<open>read and write\<close>

text \<open>
  \<open>return sz\<close> converts a \<open>size_t\<close> to the callback's \<open>int\<close>: the low 32 bits, read as
  two's complement.
\<close>

definition int_of_size_t :: "64 word \<Rightarrow> int" where
  "int_of_size_t sz = sint (ucast sz :: 32 word)"

text \<open>
  The result is the return value, the bytes stored in \<open>buf\<close> and the state. The test
  \<open>sz == -1\<close> compares with the \<open>size_t\<close> of all ones; both branches only log.
\<close>

definition exec_read ::
  "os \<Rightarrow> state \<Rightarrow> string \<Rightarrow> 64 word \<Rightarrow> int \<Rightarrow> fuse_file_info option
     \<Rightarrow> int \<times> 8 word list \<times> state" where
  "exec_read os s p n offset fi =
     (case fi of
        None \<Rightarrow> (- 1, [], assert_log 210 ''exec_read'' ''fi != NULL'' s)
      | Some f \<Rightarrow>
          if fh f = 0 then (- 1, [], assert_log 211 ''exec_read'' ''fi->fh != 0'' s)
          else
            let s1 = LOG ''read called on %s (popen handle %p)'' [LStr p, LPtr (fh f)] s;
                bs = fst (fread_r os (fh f) n);
                sz = (word_of_nat (length bs) :: 64 word);
                s2 = s1\<lparr>calls := calls s1 @ [Fread (fh f) n]\<rparr>;
                s3 = (if sz = - 1 then
                        LOG ''read from %s failed with error %d'' [LStr p, LInt (errno_r os)] s2
                      else
                        LOG ''read from %s returned %d bytes'' [LStr p, LInt (int_of_size_t sz)] s2)
            in (int_of_size_t sz, bs, s3))"

text \<open>\<open>buf\<close> holds the \<open>size\<close> bytes to write.\<close>

definition exec_write ::
  "os \<Rightarrow> state \<Rightarrow> string \<Rightarrow> 8 word list \<Rightarrow> int \<Rightarrow> fuse_file_info option
     \<Rightarrow> int \<times> state" where
  "exec_write os s p buf offset fi =
     (case fi of
        None \<Rightarrow> (- 1, assert_log 248 ''exec_write'' ''fi != NULL'' s)
      | Some f \<Rightarrow>
          if fh f = 0 then (- 1, assert_log 249 ''exec_write'' ''fi->fh != 0'' s)
          else
            let s1 = LOG ''write called on %s (popen handle %p)'' [LStr p, LPtr (fh f)] s;
                sz = fst (fwrite_r os (fh f) buf);
                s2 = s1\<lparr>calls := calls s1 @ [Fwrite (fh f) buf]\<rparr>;
                s3 = (if sz = - 1 then
                        LOG ''write to %s failed with error %d'' [LStr p, LInt (errno_r os)] s2
                      else
                        LOG ''write to %s of %d bytes'' [LStr p, LInt (int_of_size_t sz)] s2)
            in (int_of_size_t sz, s3))"

subsection \<open>readdir\<close>

text \<open>
  The loop of \<open>exec_readdir\<close> from index \<open>i\<close>: \<open>filler\<close> is handed the buffer, the
  entry's path, no \<open>stat\<close> and the offset \<open>i + 1\<close> of the next entry, and answers with
  its return value and the buffer. A non-zero answer ends the loop. Both exits return 0,
  so the loop's result is the buffer.
\<close>

function readdir_loop ::
  "entry list \<Rightarrow> ('b \<Rightarrow> string \<Rightarrow> stat option \<Rightarrow> int \<Rightarrow> int \<times> 'b) \<Rightarrow> nat \<Rightarrow> 'b \<Rightarrow> 'b" where
  "readdir_loop es filler i buf =
     (if i < length es then
        (case filler buf (path (es ! i)) None (int i + 1) of
           (r, buf') \<Rightarrow> if r \<noteq> 0 then buf' else readdir_loop es filler (i + 1) buf')
      else buf)"
  by pat_completeness auto
termination
  by (relation "measure (\<lambda>(es, filler, i, buf). length es - i)") auto

text \<open>
  \<open>int i = offset\<close> keeps the low 32 bits of the 64-bit \<open>off_t\<close>, read as two's
  complement. \<open>entries_sz\<close> (declared in globals.h) is taken to be an \<open>int\<close> like the
  counter compared with it: a negative \<open>i\<close> is then below it, and the loop would read
  \<open>entries[i]\<close> before the array. That undefined read is the result \<open>None\<close>.
\<close>

definition exec_readdir ::
  "state \<Rightarrow> string \<Rightarrow> 'b \<Rightarrow> ('b \<Rightarrow> string \<Rightarrow> stat option \<Rightarrow> int \<Rightarrow> int \<times> 'b) \<Rightarrow> int
     \<Rightarrow> (int \<times> 'b) option" where
  "exec_readdir s p buf filler offset =
     (if \<not> is_root p then Some (- EBADF, buf)
      else
        let i = signed_take_bit 31 offset
        in if i < 0 then None
           else Some (0, readdir_loop (entries s) filler (nat i) buf))"

subsection \<open>release\<close>

definition exec_release ::
  "state \<Rightarrow> string \<Rightarrow> fuse_file_info option \<Rightarrow> int \<times> state" where
  "exec_release s p fi =
     (if \<not> (is_root p \<or> find_entry s p \<noteq> None) then
        (- 1, assert_log 240 ''exec_release'' ''is_root(path) || find_entry(path) != NULL'' s)
      else case fi of
        None \<Rightarrow> (- 1, assert_log 241 ''exec_release'' ''fi != NULL'' s)
      | Some f \<Rightarrow>
          if fh f = 0 then (- 1, assert_log 242 ''exec_release'' ''fi->fh != 0'' s)
          else (0, s\<lparr>calls := calls s @ [Pclose (fh f)]\<rparr>))"

subsection \<open>The stubs\<close>

text \<open>
  The two macros that generate the remaining callbacks; \<open>func\<close> is \<open>__func__\<close>. The
  arguments after the path are unused, so the callbacks differ only in their names.
\<close>

definition FAIL_STUB :: "string \<Rightarrow> state \<Rightarrow> string \<Rightarrow> int \<times> state" where
  "FAIL_STUB func s p =
     (- EACCES, LOG ''Fail stubbed function %s called on %s'' [LStr func, LStr p] s)"

definition NOP_STUB :: "string \<Rightarrow> state \<Rightarrow> string \<Rightarrow> int \<times> state" where
  "NOP_STUB func s p =
     (let s1 = LOG ''No-op stubbed function %s called on %s'' [LStr func, LStr p] s
      in if \<not> is_root p \<and> find_entry s p = None then (- ENOENT, s1) else (0, s1))"

definition exec_bmap :: "state \<Rightarrow> string \<Rightarrow> 64 word \<Rightarrow> 64 word \<Rightarrow> int \<times> state" where
  "exec_bmap s p blocksize idx = FAIL_STUB ''exec_bmap'' s p"

definition exec_chmod :: "state \<Rightarrow> string \<Rightarrow> 32 word \<Rightarrow> int \<times> state" where
  "exec_chmod s p mode = FAIL_STUB ''exec_chmod'' s p"

definition exec_chown :: "state \<Rightarrow> string \<Rightarrow> 32 word \<Rightarrow> 32 word \<Rightarrow> int \<times> state" where
  "exec_chown s p new_uid new_gid = FAIL_STUB ''exec_chown'' s p"

definition exec_fsyncdir ::
  "state \<Rightarrow> string \<Rightarrow> int \<Rightarrow> fuse_file_info option \<Rightarrow> int \<times> state" where
  "exec_fsyncdir s p datasync fi = NOP_STUB ''exec_fsyncdir'' s p"

definition exec_link :: "state \<Rightarrow> string \<Rightarrow> string \<Rightarrow> int \<times> state" where
  "exec_link s p target = FAIL_STUB ''exec_link'' s p"

definition exec_mkdir :: "state \<Rightarrow> string \<Rightarrow> 32 word \<Rightarrow> int \<times> state" where
  "exec_mkdir s p mode = FAIL_STUB ''exec_mkdir'' s p"

definition exec_mknod :: "state \<Rightarrow> string \<Rightarrow> 32 word \<Rightarrow> 64 word \<Rightarrow> int \<times> state" where
  "exec_mknod s p mode dev = FAIL_STUB ''exec_mknod'' s p"

definition exec_readlink :: "state \<Rightarrow> string \<Rightarrow> 64 word \<Rightarrow> int \<times> state" where
  "exec_readlink s p n = FAIL_STUB ''exec_readlink'' s p"

definition exec_releasedir :: "state \<Rightarrow> string \<Rightarrow> fuse_file_info option \<Rightarrow> int \<times> state" where
  "exec_releasedir s p fi = NOP_STUB ''exec_releasedir'' s p"

definition exec_removexattr :: "state \<Rightarrow> string \<Rightarrow> string \<Rightarrow> int \<times> state" where
  "exec_removexattr s p name = FAIL_STUB ''exec_removexattr'' s p"

definition exec_rename :: "state \<Rightarrow> string \<Rightarrow> string \<Rightarrow> int \<times> state" where
  "exec_rename s p new_name = FAIL_STUB ''exec_rename'' s p"

definition exec_rmdir :: "state \<Rightarrow> string \<Rightarrow> int \<times> state" where
  "exec_rmdir s p = FAIL_STUB ''exec_rmdir'' s p"

definition exec_setxattr ::
  "state \<Rightarrow> string \<Rightarrow> string \<Rightarrow> 8 word list \<Rightarrow> int \<Rightarrow> int \<times> state" where
  "exec_setxattr s p name val xflags = FAIL_STUB ''exec_setxattr'' s p"

definition exec_symlink :: "state \<Rightarrow> string \<Rightarrow> string \<Rightarrow> int \<times> state" where
  "exec_symlink s p target = FAIL_STUB ''exec_symlink'' s p"

definition exec_truncate :: "state \<Rightarrow> string \<Rightarrow> int \<Rightarrow> int \<times> state" where
  "exec_truncate s p new_size = NOP_STUB ''exec_truncate'' s p"

definition exec_unlink :: "state \<Rightarrow> string \<Rightarrow> int \<times> state" where
  "exec_unlink s p = FAIL_STUB ''exec_unlink'' s p"

definition exec_utime :: "state \<Rightarrow> string \<Rightarrow> int \<times> int \<Rightarrow> int \<times> state" where
  "exec_utime s p ubuf = NOP_STUB ''exec_utime'' s p"

definition exec_utimens :: "state \<Rightarrow> string \<Rightarrow> (int \<times> int) \<times> (int \<times> int) \<Rightarrow> int \<times> state" where
  "exec_utimens s p tv = NOP_STUB ''exec_utimens'' s p"

section \<open>Notions the properties use\<close>

subsection \<open>The open check as the specification words it\<close>

text \<open>
  The bits a requested mode implies: the read bit for read-only and read-write, the write
  bit for write-only and read-write. \<open>rights_cover r m\<close> says that the rights word \<open>r\<close>
  is a superset of them.
\<close>

definition implied_bits :: "32 word \<Rightarrow> 64 word" where
  "implied_bits m =
     (if m = O_RDONLY \<or> m = O_RDWR then R else 0) OR (if m = O_WRONLY \<or> m = O_RDWR then W else 0)"

definition rights_cover :: "32 word \<Rightarrow> 32 word \<Rightarrow> bool" where
  "rights_cover r m = (ucast r AND implied_bits m = implied_bits m)"

text \<open>The mode string \<open>exec_open\<close> hands to \<open>popen\<close>.\<close>

definition popen_mode :: "32 word \<Rightarrow> string" where
  "popen_mode m = (if m = O_RDONLY then ''r'' else ''w'')"

text \<open>An entry with its three execute flags replaced.\<close>

definition set_x :: "bool \<Rightarrow> bool \<Rightarrow> bool \<Rightarrow> entry \<Rightarrow> entry" where
  "set_x a b c e = e\<lparr>u_x := a, g_x := b, o_x := c\<rparr>"

subsection \<open>Reading a mode word\<close>

text \<open>
  The nine permission bits of a \<open>st_mode\<close>, tested with the masks of \<open>sys/stat.h\<close>, as
  owner, group and other triples of read, write and execute; and the nine flags of an
  entry in the same shape.
\<close>

definition mode_perms ::
  "32 word \<Rightarrow> (bool \<times> bool \<times> bool) \<times> (bool \<times> bool \<times> bool) \<times> (bool \<times> bool \<times> bool)" where
  "mode_perms m =
     ((m AND S_IRUSR \<noteq> 0, m AND S_IWUSR \<noteq> 0, m AND S_IXUSR \<noteq> 0),
      (m AND S_IRGRP \<noteq> 0, m AND S_IWGRP \<noteq> 0, m AND S_IXGRP \<noteq> 0),
      (m AND S_IROTH \<noteq> 0, m AND S_IWOTH \<noteq> 0, m AND S_IXOTH \<noteq> 0))"

definition entry_perms ::
  "entry \<Rightarrow> (bool \<times> bool \<times> bool) \<times> (bool \<times> bool \<times> bool) \<times> (bool \<times> bool \<times> bool)" where
  "entry_perms e = ((u_r e, u_w e, u_x e), (g_r e, g_w e, g_x e), (o_r e, o_w e, o_x e))"

subsection \<open>What a callback leaves alone\<close>

text \<open>
  \<open>untouched s s'\<close>: from \<open>s\<close> to \<open>s'\<close> the entry registry, the mount identity and the
  configured size are the same, and no stream call was made; only the log may differ.
\<close>

definition untouched :: "state \<Rightarrow> state \<Rightarrow> bool" where
  "untouched s s' \<longleftrightarrow>
     entries s' = entries s \<and> uid s' = uid s \<and> gid s' = gid s \<and> size_g s' = size_g s \<and>
     calls s' = calls s"

subsection \<open>The directory filler\<close>

text \<open>
  \<open>exec_readdir\<close> receives its \<open>filler\<close> from FUSE. The one modelled here follows the
  documentation of \<open>fuse_fill_dir_t\<close>: the buffer collects each name with the offset of the
  next entry, and once it holds \<open>cap\<close> names the filler returns 1 and adds nothing.
\<close>

definition bounded_filler ::
  "nat \<Rightarrow> (string \<times> int) list \<Rightarrow> string \<Rightarrow> stat option \<Rightarrow> int \<Rightarrow> int \<times> (string \<times> int) list" where
  "bounded_filler cap buf name st off =
     (if length buf < cap then (0, buf @ [(name, off)]) else (1, buf))"

text \<open>A filler whose buffer never fills.\<close>

definition unbounded_filler ::
  "(string \<times> int) list \<Rightarrow> string \<Rightarrow> stat option \<Rightarrow> int \<Rightarrow> int \<times> (string \<times> int) list" where
  "unbounded_filler buf name st off = (0, buf @ [(name, off)])"

text \<open>
  The directory entries of a registry, in registry order: the path of the entry at index
  \<open>i\<close> with the offset \<open>i + 1\<close>.
\<close>

definition dirents :: "entry list \<Rightarrow> (string \<times> int) list" where
  "dirents es = map (\<lambda>i. (path (es ! i), int i + 1)) [0..<length es]"

text \<open>The directory entries from the start index \<open>k\<close> on.\<close>

definition dirents_from :: "entry list \<Rightarrow> nat \<Rightarrow> (string \<times> int) list" where
  "dirents_from es k = drop k (dirents es)"

subsection \<open>Listing as the specification words it\<close>

text \<open>
  \<open>offer filler buf xs\<close>: the directory entries \<open>xs\<close> are offered to the filler one by one,
  in order, and the offering stops at the first one the filler refuses (a non-zero
  answer). The result is the buffer as the last call left it.
\<close>

fun offer ::
  "('b \<Rightarrow> string \<Rightarrow> stat option \<Rightarrow> int \<Rightarrow> int \<times> 'b) \<Rightarrow> 'b \<Rightarrow> (string \<times> int) list \<Rightarrow> 'b" where
  "offer filler buf [] = buf"
| "offer filler buf ((name, off) # xs) =
     (case filler buf name None off of
        (r, buf') \<Rightarrow> if r \<noteq> 0 then buf' else offer filler buf' xs)"

text \<open>
  \<open>fed filler buf xs\<close> is the buffer after the filler was called on every entry of \<open>xs\<close>
  in turn, whatever it answered; \<open>refuses filler buf x\<close> says that the filler, called with
  the buffer \<open>buf\<close> on the entry \<open>x\<close>, answers non-zero.
\<close>

definition fed ::
  "('b \<Rightarrow> string \<Rightarrow> stat option \<Rightarrow> int \<Rightarrow> int \<times> 'b) \<Rightarrow> 'b \<Rightarrow> (string \<times> int) list \<Rightarrow> 'b" where
  "fed filler buf xs = fold (\<lambda>(name, off) b. snd (filler b name None off)) xs buf"

definition refuses ::
  "('b \<Rightarrow> string \<Rightarrow> stat option \<Rightarrow> int \<Rightarrow> int \<times> 'b) \<Rightarrow> 'b \<Rightarrow> string \<times> int \<Rightarrow> bool" where
  "refuses filler buf x = (fst (filler buf (fst x) None (snd x)) \<noteq> 0)"

text \<open>
  A filler that takes the names satisfying \<open>ok\<close> and refuses every other name, and one
  that, like \<open>fill_dir\<close> of libfuse, refuses a name that would take the bytes held beyond
  \<open>budget\<close> (each name costs its length and one byte more).
\<close>

definition choosy_filler ::
  "(string \<Rightarrow> bool) \<Rightarrow> (string \<times> int) list \<Rightarrow> string \<Rightarrow> stat option \<Rightarrow> int
     \<Rightarrow> int \<times> (string \<times> int) list" where
  "choosy_filler ok buf name st off = (if ok name then (0, buf @ [(name, off)]) else (1, buf))"

definition budget_filler ::
  "nat \<Rightarrow> (string \<times> int) list \<Rightarrow> string \<Rightarrow> stat option \<Rightarrow> int \<Rightarrow> int \<times> (string \<times> int) list" where
  "budget_filler budget buf name st off =
     (if sum_list (map (\<lambda>x. Suc (length (fst x))) buf) + Suc (length name) \<le> budget
      then (0, buf @ [(name, off)]) else (1, buf))"

section \<open>A sample mount\<close>

text \<open>
  A configuration mounted by user 1000 of group 100, on which the theorems below are
  instantiated. Its entries are \<open>hello\<close> (rw- for the owner, r-- for the group, nothing
  for others), \<open>sink\<close> (-w- for the owner, -wx for the group, r-x for others) and a
  second entry under the path of \<open>hello\<close>, which the search never reaches.
\<close>

definition ex_hello :: entry where
  "ex_hello = \<lparr>path = ''hello'', command = ''echo hello'',
     u_r = True, u_w = True, u_x = False,
     g_r = True, g_w = False, g_x = False,
     o_r = False, o_w = False, o_x = False\<rparr>"

definition ex_sink :: entry where
  "ex_sink = \<lparr>path = ''sink'', command = ''cat > /tmp/sink'',
     u_r = False, u_w = True, u_x = False,
     g_r = False, g_w = True, g_x = True,
     o_r = True, o_w = False, o_x = True\<rparr>"

definition ex_shadowed :: entry where
  "ex_shadowed = ex_hello\<lparr>command := ''echo shadowed''\<rparr>"

definition ex_state :: state where
  "ex_state = \<lparr>entries = [ex_hello, ex_sink, ex_shadowed], uid = 1000, gid = 100,
     size_g = 4096, logged = [], calls = []\<rparr>"

text \<open>A mount whose only entry is \<open>hello\<close> stored under the empty path.\<close>

definition ex_anon :: state where
  "ex_anon = ex_state\<lparr>entries := [ex_hello\<lparr>path := []\<rparr>]\<rparr>"

text \<open>The same mount without the shadowed entry.\<close>

definition ex_plain :: state where
  "ex_plain = ex_state\<lparr>entries := [ex_hello, ex_sink]\<rparr>"

text \<open>
  Four callers: the mounter, the mounter under another group, a member of the mounter's
  group, and a stranger.
\<close>

definition ex_owner :: fuse_context where
  "ex_owner = \<lparr>ctx_uid = 1000, ctx_gid = 100\<rparr>"

definition ex_owner_other_group :: fuse_context where
  "ex_owner_other_group = \<lparr>ctx_uid = 1000, ctx_gid = 7\<rparr>"

definition ex_group :: fuse_context where
  "ex_group = \<lparr>ctx_uid = 1001, ctx_gid = 100\<rparr>"

definition ex_other :: fuse_context where
  "ex_other = \<lparr>ctx_uid = 1001, ctx_gid = 7\<rparr>"

text \<open>
  The \<open>fuse_file_info\<close> of three opens, before \<open>exec_open\<close> assigns \<open>fh\<close>: read-only (with
  \<open>O_LARGEFILE\<close>, 0x8000, set beside the access mode), write-only and read-write; and
  that of an open file, whose \<open>fh\<close> holds the stream 0x1000.
\<close>

definition ex_fi_r :: fuse_file_info where
  "ex_fi_r = \<lparr>flags = 0x8000, fh = 0\<rparr>"

definition ex_fi_w :: fuse_file_info where
  "ex_fi_w = \<lparr>flags = 0x8001, fh = 0\<rparr>"

definition ex_fi_rw :: fuse_file_info where
  "ex_fi_rw = \<lparr>flags = 0x8002, fh = 0\<rparr>"

definition ex_fi_open :: fuse_file_info where
  "ex_fi_open = \<lparr>flags = 0x8000, fh = 0x1000\<rparr>"

text \<open>A \<open>struct stat\<close> as a caller hands it in, all fields zero.\<close>

definition ex_stat :: stat where
  "ex_stat = \<lparr>st_uid = 0, st_gid = 0, st_atime = 0, st_mtime = 0, st_ctime = 0,
     st_mode = 0, st_size = 0, st_nlink = 0\<rparr>"

text \<open>
  A C library on which every \<open>popen\<close> succeeds with the stream 0x1000, and one on which
  every \<open>popen\<close> fails.
\<close>

definition ex_os :: os where
  "ex_os = \<lparr>popen_r = (\<lambda>cmd m. 0x1000), fflush_r = (\<lambda>h. 0), fsync_r = (\<lambda>h. 0),
     fread_r = (\<lambda>h n. ([104, 105], False)), fwrite_r = (\<lambda>h bs. (word_of_nat (length bs), False)),
     time_r = 1700000000, errno_r = 0\<rparr>"

definition ex_os_nospawn :: os where
  "ex_os_nospawn = ex_os\<lparr>popen_r := (\<lambda>cmd m. 0)\<rparr>"

text \<open>
  C libraries that differ from \<open>ex_os\<close> in one answer: a read that hits an OS-level error
  (\<open>fread\<close> stores nothing and sets the stream's error indicator), a read at the end of
  the stream (\<open>fread\<close> stores nothing, no error), a read that stores one byte before the
  error, and a write into a broken pipe (\<open>fwrite\<close> reports 0, or 2, bytes written and sets
  the error indicator).
\<close>

definition ex_os_read_error :: os where
  "ex_os_read_error = ex_os\<lparr>fread_r := (\<lambda>h n. ([], True)), errno_r := 5\<rparr>"

definition ex_os_read_eof :: os where
  "ex_os_read_eof = ex_os\<lparr>fread_r := (\<lambda>h n. ([], False))\<rparr>"

definition ex_os_read_short_error :: os where
  "ex_os_read_short_error = ex_os\<lparr>fread_r := (\<lambda>h n. ([104], True)), errno_r := 5\<rparr>"

definition ex_os_write_error :: os where
  "ex_os_write_error = ex_os\<lparr>fwrite_r := (\<lambda>h bs. (0, True)), errno_r := 32\<rparr>"

definition ex_os_write_short_error :: os where
  "ex_os_write_short_error = ex_os\<lparr>fwrite_r := (\<lambda>h bs. (2, True)), errno_r := 32\<rparr>"

section \<open>Properties\<close>

subsection \<open>Access rights\<close>

lemma rights_bits_pack:
  "rights_bits (ucast ((if a then R else 0) OR (if b then W else 0) OR (if c then X else 0))) = (a, b, c)"
  by (cases a; cases b; cases c) (simp_all add: rights_bits_def R_def W_def X_def BIT_def)

lemma rights_pack_small:
  "(ucast ((if a then R else 0) OR (if b then W else 0) OR (if c then X else 0)) :: 32 word) \<le> 7"
  by (cases a; cases b; cases c) (simp_all add: R_def W_def X_def BIT_def)

lemma access_rights_refines: "rights_bits (access_rights s c e) = rights_for s c e"
  by (simp add: access_rights_def rights_for_def rights_bits_pack)

lemma access_rights_small: "access_rights s c e \<le> 7"
  by (cases "ctx_uid c = uid s"; cases "ctx_gid c = gid s")
    (simp_all only: access_rights_def if_True if_False rights_pack_small simp_thms)

text \<open>
  C2: for every entry and every caller, the computed rights are the entry's owner triple
  when the caller's uid is the mounter's, whatever the gid; otherwise the group triple
  when the caller's gid is the mounter's; otherwise the triple for others. The word
  \<open>access_rights\<close> returns is read back with \<open>rights_bits\<close>, the tests \<open>& R\<close>, \<open>& W\<close>
  and \<open>& X\<close>; it agrees with the specification's \<open>rights_for\<close> and sets no other bit.
\<close>

theorem access_rights_first_match:
  "(ctx_uid c = uid s \<and> ctx_gid c = gid s \<longrightarrow>
      rights_bits (access_rights s c e) = (u_r e, u_w e, u_x e)) \<and>
   (ctx_uid c = uid s \<and> ctx_gid c \<noteq> gid s \<longrightarrow>
      rights_bits (access_rights s c e) = (u_r e, u_w e, u_x e)) \<and>
   (ctx_uid c \<noteq> uid s \<and> ctx_gid c = gid s \<longrightarrow>
      rights_bits (access_rights s c e) = (g_r e, g_w e, g_x e)) \<and>
   (ctx_uid c \<noteq> uid s \<and> ctx_gid c \<noteq> gid s \<longrightarrow>
      rights_bits (access_rights s c e) = (o_r e, o_w e, o_x e)) \<and>
   rights_bits (access_rights s c e) = rights_for s c e \<and>
   access_rights s c e \<le> 7"
proof -
  have a: "rights_bits (access_rights s c e) = rights_for s c e"
    by (rule access_rights_refines)
  have b: "access_rights s c e \<le> 7"
    by (rule access_rights_small)
  show ?thesis
    unfolding a using b by (simp add: rights_for_def)
qed

theorem access_rights_first_match_witness:
  "rights_bits (access_rights ex_state ex_owner ex_sink) = (False, True, False) \<and>
   rights_bits (access_rights ex_state ex_owner_other_group ex_sink) = (False, True, False) \<and>
   rights_bits (access_rights ex_state ex_group ex_sink) = (False, True, True) \<and>
   rights_bits (access_rights ex_state ex_other ex_sink) = (True, False, True)"
  using access_rights_first_match [of ex_owner ex_state ex_sink]
    access_rights_first_match [of ex_owner_other_group ex_state ex_sink]
    access_rights_first_match [of ex_group ex_state ex_sink]
    access_rights_first_match [of ex_other ex_state ex_sink]
  by (simp add: ex_state_def ex_owner_def ex_owner_other_group_def ex_group_def ex_other_def
      ex_sink_def)

subsection \<open>Path resolution\<close>

lemma find_entry_loop_find: "find_entry_loop rest es = find (\<lambda>e. path e = rest) es"
  by (induction es) auto

lemma find_entry_loop_Some:
  "find_entry_loop rest es = Some e \<longleftrightarrow>
     (\<exists>i<length es. es ! i = e \<and> path e = rest \<and> (\<forall>j<i. path (es ! j) \<noteq> rest))"
  unfolding find_entry_loop_find find_Some_iff by auto

lemma find_entry_loop_None:
  "find_entry_loop rest es = None \<longleftrightarrow> (\<forall>e\<in>set es. path e \<noteq> rest)"
  unfolding find_entry_loop_find find_None_iff by auto

lemma resolve_root: "resolve s p = Root \<longleftrightarrow> p = ''/''"
  by (auto simp: resolve_def is_root_def split: option.splits)

lemma resolve_no_slash: "p = [] \<or> hd p \<noteq> CHR ''/'' \<Longrightarrow> resolve s p = NotFound"
  by (cases p) (auto simp: resolve_def is_root_def find_entry_def)

lemma resolve_slash:
  assumes "rest \<noteq> []"
  shows "resolve s (CHR ''/'' # rest) =
    (case find_entry_loop rest (entries s) of None \<Rightarrow> NotFound | Some e \<Rightarrow> Entry e)"
  using assms by (simp add: resolve_def is_root_def find_entry_def)

text \<open>
  C3: resolution gives \<open>Root\<close> exactly for the path \<open>/\<close>; a path that does not begin
  with a slash (the empty path included) is not found; any other path \<open>/rest\<close> resolves
  to the first entry of the registry whose stored path equals \<open>rest\<close> (the entry at the
  least index with that path), and is not found when no entry has that path.
\<close>

theorem resolve_first_match:
  "(resolve s p = Root \<longleftrightarrow> p = ''/'') \<and>
   (p = [] \<or> hd p \<noteq> CHR ''/'' \<longrightarrow> resolve s p = NotFound) \<and>
   (\<forall>rest. p = CHR ''/'' # rest \<and> rest \<noteq> [] \<longrightarrow>
      resolve s p =
        (case find (\<lambda>e. path e = rest) (entries s) of None \<Rightarrow> NotFound | Some e \<Rightarrow> Entry e) \<and>
      (\<forall>e. resolve s p = Entry e \<longleftrightarrow>
        (\<exists>i<length (entries s). entries s ! i = e \<and> path e = rest \<and>
           (\<forall>j<i. path (entries s ! j) \<noteq> rest))) \<and>
      (resolve s p = NotFound \<longleftrightarrow> (\<forall>e\<in>set (entries s). path e \<noteq> rest)))"
proof (intro conjI allI impI)
  show "resolve s p = Root \<longleftrightarrow> p = ''/''" by (rule resolve_root)
next
  assume "p = [] \<or> hd p \<noteq> CHR ''/''"
  then show "resolve s p = NotFound" by (rule resolve_no_slash)
next
  fix rest assume h: "p = CHR ''/'' # rest \<and> rest \<noteq> []"
  then show "resolve s p =
        (case find (\<lambda>e. path e = rest) (entries s) of None \<Rightarrow> NotFound | Some e \<Rightarrow> Entry e)"
    by (simp add: resolve_slash find_entry_loop_find)
next
  fix rest e assume h: "p = CHR ''/'' # rest \<and> rest \<noteq> []"
  then have "resolve s p = Entry e \<longleftrightarrow> find_entry_loop rest (entries s) = Some e"
    by (simp add: resolve_slash split: option.splits)
  then show "resolve s p = Entry e \<longleftrightarrow>
        (\<exists>i<length (entries s). entries s ! i = e \<and> path e = rest \<and>
           (\<forall>j<i. path (entries s ! j) \<noteq> rest))"
    by (simp only: find_entry_loop_Some)
next
  fix rest assume h: "p = CHR ''/'' # rest \<and> rest \<noteq> []"
  then have "resolve s p = NotFound \<longleftrightarrow> find_entry_loop rest (entries s) = None"
    by (simp add: resolve_slash split: option.splits)
  then show "resolve s p = NotFound \<longleftrightarrow> (\<forall>e\<in>set (entries s). path e \<noteq> rest)"
    by (simp only: find_entry_loop_None)
qed

theorem resolve_first_match_witness:
  "resolve ex_state ''/'' = Root \<and>
   resolve ex_state ''hello'' = NotFound \<and>
   resolve ex_state '''' = NotFound \<and>
   resolve ex_state ''/hello'' = Entry ex_hello \<and>
   resolve ex_state ''/hello'' \<noteq> Entry ex_shadowed \<and>
   resolve ex_state ''/sink'' = Entry ex_sink \<and>
   resolve ex_state ''/hello/'' = NotFound"
proof -
  have a: "resolve ex_state ''/'' = Root"
    using resolve_first_match [of ex_state "''/''"] by simp
  have b: "resolve ex_state ''hello'' = NotFound"
    using resolve_first_match [of ex_state "''hello''"] by simp
  have c: "resolve ex_state '''' = NotFound"
    using resolve_first_match [of ex_state "''''"] by simp
  have d: "resolve ex_state ''/hello'' = Entry ex_hello"
    using resolve_first_match [of ex_state "''/hello''"]
    by (simp add: ex_state_def ex_hello_def)
  have e: "resolve ex_state ''/hello'' \<noteq> Entry ex_shadowed"
    unfolding d by (simp add: ex_hello_def ex_shadowed_def)
  have f: "resolve ex_state ''/sink'' = Entry ex_sink"
    using resolve_first_match [of ex_state "''/sink''"]
    by (simp add: ex_state_def ex_hello_def ex_sink_def)
  have g: "resolve ex_state ''/hello/'' = NotFound"
    using resolve_first_match [of ex_state "''/hello/''"]
    by (simp add: ex_state_def ex_hello_def ex_sink_def ex_shadowed_def)
  from a b c d e f g show ?thesis by simp
qed

subsection \<open>open\<close>

lemma and_exp_eq_exp:
  assumes "n < LENGTH('a)"
  shows "(x :: 'a::len word) AND 2 ^ n = 2 ^ n \<longleftrightarrow> bit x n"
proof
  assume "x AND 2 ^ n = 2 ^ n"
  then have "bit (x AND 2 ^ n) n = bit (2 ^ n :: 'a word) n" by simp
  then show "bit x n" using assms by (simp add: bit_and_iff bit_exp_iff)
next
  assume "bit x n"
  then show "x AND 2 ^ n = 2 ^ n"
    by (intro bit_word_eqI) (auto simp: bit_and_iff bit_exp_iff)
qed

lemma and_exp2_eq_exp2:
  assumes "m < LENGTH('a)" and "n < LENGTH('a)"
  shows "(x :: 'a::len word) AND (2 ^ m OR 2 ^ n) = 2 ^ m OR 2 ^ n \<longleftrightarrow> bit x m \<and> bit x n"
proof
  assume h: "x AND (2 ^ m OR 2 ^ n) = 2 ^ m OR 2 ^ n"
  then have "bit (x AND (2 ^ m OR 2 ^ n)) m = bit (2 ^ m OR 2 ^ n :: 'a word) m"
    and "bit (x AND (2 ^ m OR 2 ^ n)) n = bit (2 ^ m OR 2 ^ n :: 'a word) n" by simp_all
  then show "bit x m \<and> bit x n"
    using assms by (simp add: bit_and_iff bit_or_iff bit_exp_iff)
next
  assume "bit x m \<and> bit x n"
  then show "x AND (2 ^ m OR 2 ^ n) = 2 ^ m OR 2 ^ n"
    by (intro bit_word_eqI) (auto simp: bit_and_iff bit_or_iff bit_exp_iff)
qed

lemma and_R: "(x :: 64 word) AND R = 0 \<longleftrightarrow> \<not> bit x 2"
  using and_exp_eq_0_iff_not_bit [of x 2] by (simp add: R_def BIT_def)

lemma and_W: "(x :: 64 word) AND W = 0 \<longleftrightarrow> \<not> bit x 1"
  using and_exp_eq_0_iff_not_bit [of x 1] by (simp add: W_def BIT_def)

lemma cover_R: "(x :: 64 word) AND R = R \<longleftrightarrow> bit x 2"
  using and_exp_eq_exp [of 2 x] by (simp add: R_def BIT_def)

lemma cover_W: "(x :: 64 word) AND W = W \<longleftrightarrow> bit x 1"
  using and_exp_eq_exp [of 1 x] by (simp add: W_def BIT_def)

lemma cover_RW: "(x :: 64 word) AND (R OR W) = R OR W \<longleftrightarrow> bit x 2 \<and> bit x 1"
  using and_exp2_eq_exp2 [of 2 1 x] by (simp add: R_def W_def BIT_def)

lemma modes_distinct: "O_RDONLY \<noteq> O_WRONLY" "O_RDONLY \<noteq> O_RDWR" "O_WRONLY \<noteq> O_RDWR"
  by (simp_all add: O_RDONLY_def O_WRONLY_def O_RDWR_def)

lemma open_check_cover:
  "(((m = O_RDONLY \<or> m = O_RDWR) \<and> ucast er AND R = 0) \<or>
    ((m = O_WRONLY \<or> m = O_RDWR) \<and> ucast er AND W = 0)) \<longleftrightarrow> \<not> rights_cover er m"
  using modes_distinct
  by (auto simp: rights_cover_def implied_bits_def and_R and_W cover_R cover_W cover_RW)


lemma find_entry_loop_map:
  "(\<And>e. path (f e) = path e) \<Longrightarrow>
     find_entry_loop rest (map f es) = map_option f (find_entry_loop rest es)"
  by (induction es) auto

lemma find_entry_set_x:
  "find_entry (s\<lparr>entries := map (set_x a b d) (entries s)\<rparr>) p =
     map_option (set_x a b d) (find_entry s p)"
  by (cases p) (simp_all add: find_entry_def find_entry_loop_map set_x_def)

lemma rights_bits_cover:
  "rights_cover r m \<longleftrightarrow>
     ((m = O_RDONLY \<or> m = O_RDWR) \<longrightarrow> fst (rights_bits r)) \<and>
     ((m = O_WRONLY \<or> m = O_RDWR) \<longrightarrow> fst (snd (rights_bits r)))"
  using modes_distinct
  by (auto simp: rights_cover_def implied_bits_def rights_bits_def and_R and_W cover_R cover_W cover_RW)

lemma rights_for_set_x:
  "fst (rights_for (s\<lparr>entries := es\<rparr>) c (set_x a b d e)) = fst (rights_for s c e) \<and>
   fst (snd (rights_for (s\<lparr>entries := es\<rparr>) c (set_x a b d e))) = fst (snd (rights_for s c e))"
  by (simp add: rights_for_def set_x_def)

lemma rights_cover_set_x:
  "rights_cover (access_rights (s\<lparr>entries := es\<rparr>) c (set_x a b d e)) m =
   rights_cover (access_rights s c e) m"
  by (simp add: rights_bits_cover access_rights_refines rights_for_set_x)

lemma exec_open_result:
  "exec_open os c s p (Some f) =
     (case find_entry s p of
        None \<Rightarrow> (- ENOENT, Some f, s)
      | Some e \<Rightarrow>
          if \<not> rights_cover (access_rights s c e) (flags f AND RIGHTS_MASK) then
            (- EACCES, Some f, s)
          else
            let m = flags f AND RIGHTS_MASK;
                h = popen_r os (command e) (popen_mode m);
                s2 = (LOG ''Opening %s (%s) for %s''
                        [LStr p, LStr (command e),
                         LStr (if m = O_RDONLY then ''read''
                               else if m = O_WRONLY then ''write'' else ''read/write'')] s)
                     \<lparr>calls := calls s @ [Popen (command e) (popen_mode m)]\<rparr>
            in if h = 0 then
                 (- EBADF, Some (f\<lparr>fh := 0\<rparr>), LOG ''Failed to popen %s'' [LStr (command e)] s2)
               else
                 (0, Some (f\<lparr>fh := h\<rparr>), LOG ''Handle %p returned from popen'' [LPtr h] s2))"
  by (simp add: exec_open_def open_check_cover Let_def popen_mode_def LOG_def split: option.splits)

lemma exec_open_ret:
  "fst (exec_open os c s p (Some f)) =
     (case find_entry s p of
        None \<Rightarrow> - ENOENT
      | Some e \<Rightarrow>
          if \<not> rights_cover (access_rights s c e) (flags f AND RIGHTS_MASK) then - EACCES
          else if popen_r os (command e) (popen_mode (flags f AND RIGHTS_MASK)) = 0 then - EBADF
          else 0)"
  by (simp add: exec_open_result Let_def split: option.splits)

lemma errno_nonzero: "ENOENT \<noteq> 0" "EACCES \<noteq> 0" "EBADF \<noteq> 0"
  by (simp_all add: ENOENT_def EACCES_def EBADF_def)

lemma command_set_x: "command (set_x a b d e) = command e"
  by (simp add: set_x_def)

lemma exec_open_success_iff:
  "fst (exec_open os c s p (Some f)) = 0 \<longleftrightarrow>
     (\<exists>e. find_entry s p = Some e \<and>
          rights_cover (access_rights s c e) (flags f AND RIGHTS_MASK) \<and>
          popen_r os (command e) (popen_mode (flags f AND RIGHTS_MASK)) \<noteq> 0)"
  by (simp add: exec_open_ret errno_nonzero split: option.splits)

lemma exec_open_set_x:
  "fst (exec_open os c (s\<lparr>entries := map (set_x a b d) (entries s)\<rparr>) p (Some f)) =
   fst (exec_open os c s p (Some f))"
  by (simp add: exec_open_ret find_entry_set_x rights_cover_set_x command_set_x
      split: option.splits)


lemma find_entry_resolve:
  "p \<noteq> ''/'' \<or> (\<forall>e'\<in>set (entries s). path e' \<noteq> []) \<longrightarrow>
     (find_entry s p = Some e \<longleftrightarrow> resolve s p = Entry e)"
proof (cases "p = ''/''")
  case False
  then show ?thesis by (auto simp: resolve_def is_root_def split: option.splits)
next
  case True
  show ?thesis
  proof
    assume "p \<noteq> ''/'' \<or> (\<forall>e'\<in>set (entries s). path e' \<noteq> [])"
    with True have "\<forall>e'\<in>set (entries s). path e' \<noteq> []" by simp
    then have "find_entry_loop [] (entries s) = None" by (simp add: find_entry_loop_None)
    with True show "find_entry s p = Some e \<longleftrightarrow> resolve s p = Entry e"
      by (simp add: find_entry_def resolve_def is_root_def)
  qed
qed

text \<open>
  C1, as amended: for every path and every requested mode, \<open>exec_open\<close> returns
  \<open>-ENOENT\<close> when \<open>find_entry\<close> finds no entry, \<open>-EACCES\<close> when the caller's rights are not
  a superset of the bits the mode implies, \<open>-EBADF\<close> when the rights suffice and \<open>popen\<close>
  returns no stream, and 0 otherwise. The two refusals leave the \<open>fuse_file_info\<close> and
  the state as they were, and replacing the execute flags of every entry changes nothing
  in the result. \<open>exec_open\<close> does not test for the root: on \<open>/\<close> it looks for an entry
  stored under the empty path. So for every path but \<open>/\<close>, and for \<open>/\<close> too when no entry
  has the empty path, \<open>find_entry\<close> finds an entry exactly when the path resolves to it,
  and the open succeeds exactly when the path resolves to an entry, the rights cover the
  mode and \<open>popen\<close> returns a stream; it returns \<open>-ENOENT\<close> when the path resolves to the
  root or to nothing.
\<close>

theorem exec_open_contract:
  "fst (exec_open os c s p (Some f)) =
     (case find_entry s p of
        None \<Rightarrow> - ENOENT
      | Some e \<Rightarrow>
          if \<not> rights_cover (access_rights s c e) (flags f AND RIGHTS_MASK) then - EACCES
          else if popen_r os (command e) (popen_mode (flags f AND RIGHTS_MASK)) = 0 then - EBADF
          else 0) \<and>
   (fst (exec_open os c s p (Some f)) = 0 \<longleftrightarrow>
     (\<exists>e. find_entry s p = Some e \<and>
          rights_cover (access_rights s c e) (flags f AND RIGHTS_MASK) \<and>
          popen_r os (command e) (popen_mode (flags f AND RIGHTS_MASK)) \<noteq> 0)) \<and>
   (fst (exec_open os c s p (Some f)) \<in> {- ENOENT, - EACCES} \<longrightarrow>
      snd (exec_open os c s p (Some f)) = (Some f, s)) \<and>
   fst (exec_open os c (s\<lparr>entries := map (set_x a b d) (entries s)\<rparr>) p (Some f)) =
     fst (exec_open os c s p (Some f)) \<and>
   (p \<noteq> ''/'' \<or> (\<forall>e'\<in>set (entries s). path e' \<noteq> []) \<longrightarrow>
      (find_entry s p = Some e \<longleftrightarrow> resolve s p = Entry e)) \<and>
   (p \<noteq> ''/'' \<or> (\<forall>e'\<in>set (entries s). path e' \<noteq> []) \<longrightarrow>
      fst (exec_open os c s p (Some f)) =
        (case resolve s p of
           Root \<Rightarrow> - ENOENT
         | NotFound \<Rightarrow> - ENOENT
         | Entry e \<Rightarrow>
             if \<not> rights_cover (access_rights s c e) (flags f AND RIGHTS_MASK) then - EACCES
             else if popen_r os (command e) (popen_mode (flags f AND RIGHTS_MASK)) = 0
               then - EBADF
             else 0) \<and>
      (fst (exec_open os c s p (Some f)) = 0 \<longleftrightarrow>
        (\<exists>e. resolve s p = Entry e \<and>
             rights_cover (access_rights s c e) (flags f AND RIGHTS_MASK) \<and>
             popen_r os (command e) (popen_mode (flags f AND RIGHTS_MASK)) \<noteq> 0))) \<and>
   find_entry s ''/'' = find (\<lambda>e. path e = []) (entries s)"
proof (intro conjI)
  show "fst (exec_open os c s p (Some f)) =
     (case find_entry s p of
        None \<Rightarrow> - ENOENT
      | Some e \<Rightarrow>
          if \<not> rights_cover (access_rights s c e) (flags f AND RIGHTS_MASK) then - EACCES
          else if popen_r os (command e) (popen_mode (flags f AND RIGHTS_MASK)) = 0 then - EBADF
          else 0)"
    by (rule exec_open_ret)
  show "fst (exec_open os c s p (Some f)) = 0 \<longleftrightarrow>
     (\<exists>e. find_entry s p = Some e \<and>
          rights_cover (access_rights s c e) (flags f AND RIGHTS_MASK) \<and>
          popen_r os (command e) (popen_mode (flags f AND RIGHTS_MASK)) \<noteq> 0)"
    by (rule exec_open_success_iff)
  show "fst (exec_open os c s p (Some f)) \<in> {- ENOENT, - EACCES} \<longrightarrow>
      snd (exec_open os c s p (Some f)) = (Some f, s)"
    by (simp add: exec_open_result Let_def ENOENT_def EACCES_def EBADF_def split: option.splits)
  show "fst (exec_open os c (s\<lparr>entries := map (set_x a b d) (entries s)\<rparr>) p (Some f)) =
     fst (exec_open os c s p (Some f))"
    by (rule exec_open_set_x)
  show "p \<noteq> ''/'' \<or> (\<forall>e'\<in>set (entries s). path e' \<noteq> []) \<longrightarrow>
      (find_entry s p = Some e \<longleftrightarrow> resolve s p = Entry e)"
    by (rule find_entry_resolve)
  show "p \<noteq> ''/'' \<or> (\<forall>e'\<in>set (entries s). path e' \<noteq> []) \<longrightarrow>
      fst (exec_open os c s p (Some f)) =
        (case resolve s p of
           Root \<Rightarrow> - ENOENT
         | NotFound \<Rightarrow> - ENOENT
         | Entry e \<Rightarrow>
             if \<not> rights_cover (access_rights s c e) (flags f AND RIGHTS_MASK) then - EACCES
             else if popen_r os (command e) (popen_mode (flags f AND RIGHTS_MASK)) = 0
               then - EBADF
             else 0) \<and>
      (fst (exec_open os c s p (Some f)) = 0 \<longleftrightarrow>
        (\<exists>e. resolve s p = Entry e \<and>
             rights_cover (access_rights s c e) (flags f AND RIGHTS_MASK) \<and>
             popen_r os (command e) (popen_mode (flags f AND RIGHTS_MASK)) \<noteq> 0))"
  proof
    assume h: "p \<noteq> ''/'' \<or> (\<forall>e'\<in>set (entries s). path e' \<noteq> [])"
    have r: "find_entry s p = Some e' \<longleftrightarrow> resolve s p = Entry e'" for e'
      using h find_entry_resolve [of p s e'] by blast
    have n: "find_entry s p = None \<longleftrightarrow> resolve s p = Root \<or> resolve s p = NotFound"
    proof (cases "find_entry s p")
      case None
      then show ?thesis by (simp add: resolve_def)
    next
      case (Some e')
      with r [of e'] show ?thesis by simp
    qed
    show "fst (exec_open os c s p (Some f)) =
        (case resolve s p of
           Root \<Rightarrow> - ENOENT
         | NotFound \<Rightarrow> - ENOENT
         | Entry e \<Rightarrow>
             if \<not> rights_cover (access_rights s c e) (flags f AND RIGHTS_MASK) then - EACCES
             else if popen_r os (command e) (popen_mode (flags f AND RIGHTS_MASK)) = 0
               then - EBADF
             else 0) \<and>
      (fst (exec_open os c s p (Some f)) = 0 \<longleftrightarrow>
        (\<exists>e. resolve s p = Entry e \<and>
             rights_cover (access_rights s c e) (flags f AND RIGHTS_MASK) \<and>
             popen_r os (command e) (popen_mode (flags f AND RIGHTS_MASK)) \<noteq> 0))"
    proof (cases "find_entry s p")
      case None
      with n have "resolve s p = Root \<or> resolve s p = NotFound" by simp
      with None show ?thesis
        by (auto simp: exec_open_ret ENOENT_def)
    next
      case (Some e')
      with r [of e'] have "resolve s p = Entry e'" by simp
      with Some show ?thesis
        by (simp add: exec_open_ret ENOENT_def EACCES_def EBADF_def)
    qed
  qed
  show "find_entry s ''/'' = find (\<lambda>e. path e = []) (entries s)"
    by (simp add: find_entry_def find_entry_loop_find)
qed

lemma ex_find_hello: "find_entry ex_state ''/hello'' = Some ex_hello"
  by (simp add: find_entry_def ex_state_def ex_hello_def)

lemma ex_find_sink: "find_entry ex_state ''/sink'' = Some ex_sink"
  by (simp add: find_entry_def ex_state_def ex_hello_def ex_sink_def)

lemma ex_find_nope: "find_entry ex_state ''/nope'' = None"
  by (simp add: find_entry_def ex_state_def ex_hello_def ex_sink_def ex_shadowed_def)

lemma ex_modes:
  "flags ex_fi_r AND RIGHTS_MASK = O_RDONLY"
  "flags ex_fi_w AND RIGHTS_MASK = O_WRONLY"
  "flags ex_fi_rw AND RIGHTS_MASK = O_RDWR"
  by (simp_all add: ex_fi_r_def ex_fi_w_def ex_fi_rw_def RIGHTS_MASK_def O_RDONLY_def
      O_WRONLY_def O_RDWR_def)

lemmas ex_rights =
  rights_bits_cover access_rights_refines rights_for_def modes_distinct
  ex_state_def ex_owner_def ex_group_def ex_other_def ex_hello_def ex_sink_def

theorem exec_open_contract_witness:
  "fst (exec_open ex_os ex_owner ex_state ''/hello'' (Some ex_fi_r)) = 0 \<and>
   fst (exec_open ex_os ex_other ex_state ''/sink'' (Some ex_fi_r)) = 0 \<and>
   fst (exec_open ex_os ex_group ex_state ''/hello'' (Some ex_fi_w)) = - EACCES \<and>
   fst (exec_open ex_os ex_owner ex_state ''/sink'' (Some ex_fi_rw)) = - EACCES \<and>
   exec_open ex_os ex_owner ex_state ''/nope'' (Some ex_fi_r) = (- ENOENT, Some ex_fi_r, ex_state) \<and>
   fst (exec_open ex_os_nospawn ex_owner ex_state ''/hello'' (Some ex_fi_r)) = - EBADF \<and>
   fst (exec_open ex_os ex_owner ex_state ''/'' (Some ex_fi_r)) = - ENOENT \<and>
   resolve ex_state ''/hello'' = Entry ex_hello \<and>
   resolve ex_anon ''/'' = Root \<and>
   fst (exec_open ex_os ex_owner ex_anon ''/'' (Some ex_fi_r)) = 0"
proof -
  have a: "fst (exec_open ex_os ex_owner ex_state ''/hello'' (Some ex_fi_r)) = 0"
    using exec_open_contract [of ex_os ex_owner ex_state "''/hello''" ex_fi_r]
    by (simp add: ex_find_hello ex_modes) (simp add: ex_rights ex_os_def)
  have b: "fst (exec_open ex_os ex_other ex_state ''/sink'' (Some ex_fi_r)) = 0"
    using exec_open_contract [of ex_os ex_other ex_state "''/sink''" ex_fi_r]
    by (simp add: ex_find_sink ex_modes) (simp add: ex_rights ex_os_def)
  have c: "fst (exec_open ex_os ex_group ex_state ''/hello'' (Some ex_fi_w)) = - EACCES"
    using exec_open_contract [of ex_os ex_group ex_state "''/hello''" ex_fi_w]
    by (simp add: ex_find_hello ex_modes) (simp add: ex_rights)
  have d: "fst (exec_open ex_os ex_owner ex_state ''/sink'' (Some ex_fi_rw)) = - EACCES"
    using exec_open_contract [of ex_os ex_owner ex_state "''/sink''" ex_fi_rw]
    by (simp add: ex_find_sink ex_modes) (simp add: ex_rights)
  have e: "exec_open ex_os ex_owner ex_state ''/nope'' (Some ex_fi_r) =
      (- ENOENT, Some ex_fi_r, ex_state)"
    using exec_open_contract [of ex_os ex_owner ex_state "''/nope''" ex_fi_r]
    by (simp add: ex_find_nope prod_eq_iff)
  have f: "fst (exec_open ex_os_nospawn ex_owner ex_state ''/hello'' (Some ex_fi_r)) = - EBADF"
    using exec_open_contract [of ex_os_nospawn ex_owner ex_state "''/hello''" ex_fi_r]
    by (simp add: ex_find_hello ex_modes) (simp add: ex_rights ex_os_nospawn_def)
  have g: "fst (exec_open ex_os ex_owner ex_state ''/'' (Some ex_fi_r)) = - ENOENT"
    using exec_open_contract [of ex_os ex_owner ex_state "''/''" ex_fi_r]
    by (simp add: find_entry_def ex_state_def ex_hello_def ex_sink_def ex_shadowed_def)
  have h: "resolve ex_state ''/hello'' = Entry ex_hello"
    using exec_open_contract [of ex_os ex_owner ex_state "''/hello''" ex_fi_r _ _ _ ex_hello]
    by (simp add: ex_find_hello)
  have i: "resolve ex_anon ''/'' = Root"
    by (simp add: resolve_def is_root_def)
  have j: "fst (exec_open ex_os ex_owner ex_anon ''/'' (Some ex_fi_r)) = 0"
    using exec_open_contract [of ex_os ex_owner ex_anon "''/''" ex_fi_r]
    by (simp add: ex_modes ex_anon_def find_entry_def)
      (simp add: ex_rights ex_os_def)
  from a b c d e f g h i j show ?thesis by simp
qed

text \<open>
  Resolution and sufficient rights alone do not make an open succeed: where the command
  cannot be spawned, the path resolves, the owner may read \<open>hello\<close>, and yet the open
  fails, with an error that is neither \<open>-EACCES\<close> nor \<open>-ENOENT\<close>.
\<close>

theorem exec_open_spawn_failure_counterexample:
  "find_entry ex_state ''/hello'' = Some ex_hello \<and>
   rights_cover (access_rights ex_state ex_owner ex_hello) (flags ex_fi_r AND RIGHTS_MASK) \<and>
   flags ex_fi_r AND RIGHTS_MASK = O_RDONLY \<and>
   fst (exec_open ex_os_nospawn ex_owner ex_state ''/hello'' (Some ex_fi_r)) = - EBADF \<and>
   - EBADF \<notin> {0, - EACCES, - ENOENT}"
proof -
  have a: "rights_cover (access_rights ex_state ex_owner ex_hello) (flags ex_fi_r AND RIGHTS_MASK)"
    by (simp add: ex_modes) (simp add: ex_rights)
  have b: "fst (exec_open ex_os_nospawn ex_owner ex_state ''/hello'' (Some ex_fi_r)) = - EBADF"
    using a by (simp add: exec_open_ret ex_find_hello ex_os_nospawn_def)
  have c: "- EBADF \<notin> {0, - EACCES, - ENOENT}"
    by (simp add: EBADF_def EACCES_def ENOENT_def)
  from a b c show ?thesis by (simp add: ex_find_hello ex_modes)
qed

subsection \<open>getattr\<close>

lemmas S_defs = S_IFREG_def S_IFDIR_def S_IRUSR_def S_IWUSR_def S_IXUSR_def S_IRGRP_def
  S_IWGRP_def S_IXGRP_def S_IROTH_def S_IWOTH_def S_IXOTH_def

lemma and_flag: "(if b then c else 0) AND (z :: 32 word) = (if b then c AND z else 0)"
  by simp

lemma file_mode_perms:
  "mode_perms (S_IFREG
      OR (if a1 then S_IRUSR else 0) OR (if a2 then S_IWUSR else 0) OR (if a3 then S_IXUSR else 0)
      OR (if a4 then S_IRGRP else 0) OR (if a5 then S_IWGRP else 0) OR (if a6 then S_IXGRP else 0)
      OR (if a7 then S_IROTH else 0) OR (if a8 then S_IWOTH else 0) OR (if a9 then S_IXOTH else 0))
   = ((a1, a2, a3), (a4, a5, a6), (a7, a8, a9))"
  unfolding mode_perms_def S_defs
  by (simp add: bit.conj_disj_distrib2 and_flag)

lemma file_mode_type:
  "(S_IFREG
      OR (if a1 then S_IRUSR else 0) OR (if a2 then S_IWUSR else 0) OR (if a3 then S_IXUSR else 0)
      OR (if a4 then S_IRGRP else 0) OR (if a5 then S_IWGRP else 0) OR (if a6 then S_IXGRP else 0)
      OR (if a7 then S_IROTH else 0) OR (if a8 then S_IWOTH else 0) OR (if a9 then S_IXOTH else 0))
     AND NOT ACCESSPERMS = S_IFREG"
  unfolding S_defs ACCESSPERMS_def
  by (simp add: bit.conj_disj_distrib2 and_flag)

lemma file_mode_fmt:
  "(S_IFREG
      OR (if a1 then S_IRUSR else 0) OR (if a2 then S_IWUSR else 0) OR (if a3 then S_IXUSR else 0)
      OR (if a4 then S_IRGRP else 0) OR (if a5 then S_IWGRP else 0) OR (if a6 then S_IXGRP else 0)
      OR (if a7 then S_IROTH else 0) OR (if a8 then S_IWOTH else 0) OR (if a9 then S_IXOTH else 0))
     AND S_IFMT = S_IFREG"
  unfolding S_defs S_IFMT_def
  by (simp add: bit.conj_disj_distrib2 and_flag)

lemma dir_mode_fmt:
  "(S_IFDIR OR S_IRUSR OR S_IXUSR OR S_IRGRP OR S_IXGRP OR S_IROTH OR S_IXOTH) AND S_IFMT = S_IFDIR"
  by (simp add: S_defs S_IFMT_def)

lemma dir_mode_perms:
  "mode_perms (S_IFDIR OR S_IRUSR OR S_IXUSR OR S_IRGRP OR S_IXGRP OR S_IROTH OR S_IXOTH) =
     ((True, False, True), (True, False, True), (True, False, True))"
  by (simp add: mode_perms_def S_defs)

lemma dir_mode_type:
  "(S_IFDIR OR S_IRUSR OR S_IXUSR OR S_IRGRP OR S_IXGRP OR S_IROTH OR S_IXOTH) AND NOT ACCESSPERMS = S_IFDIR"
  by (simp add: S_defs ACCESSPERMS_def)

lemma exec_getattr_root:
  "is_root p \<Longrightarrow> \<exists>st. exec_getattr os s p (Some st0) = (0, Some st, s) \<and>
      st_mode st AND NOT ACCESSPERMS = S_IFDIR \<and> st_mode st AND S_IFMT = S_IFDIR \<and>
      mode_perms (st_mode st) = ((True, False, True), (True, False, True), (True, False, True)) \<and>
      st_nlink st = 1 \<and> st_uid st = uid s \<and> st_gid st = gid s \<and> st_size st = 0 \<and>
      st_atime st = time_r os \<and> st_mtime st = time_r os \<and> st_ctime st = time_r os"
  by (simp add: exec_getattr_def Let_def dir_mode_perms dir_mode_type dir_mode_fmt)

lemma exec_getattr_entry:
  "\<not> is_root p \<Longrightarrow> find_entry s p = Some e \<Longrightarrow>
    \<exists>st. exec_getattr os s p (Some st0) = (0, Some st, s) \<and>
      st_mode st AND NOT ACCESSPERMS = S_IFREG \<and> st_mode st AND S_IFMT = S_IFREG \<and>
      mode_perms (st_mode st) = entry_perms e \<and>
      st_nlink st = 1 \<and> st_uid st = uid s \<and> st_gid st = gid s \<and> st_size st = size_g s \<and>
      st_atime st = time_r os \<and> st_mtime st = time_r os \<and> st_ctime st = time_r os"
  by (simp add: exec_getattr_def Let_def file_mode_perms file_mode_type file_mode_fmt
      entry_perms_def split del: if_split)

lemma exec_getattr_unknown:
  "\<not> is_root p \<Longrightarrow> find_entry s p = None \<Longrightarrow>
     fst (exec_getattr os s p (Some st0)) = - ENOENT \<and> snd (snd (exec_getattr os s p (Some st0))) = s"
  by (simp add: exec_getattr_def Let_def)

lemma resolve_cases:
  "resolve s p = Root \<longleftrightarrow> is_root p"
  "resolve s p = Entry e \<longleftrightarrow> \<not> is_root p \<and> find_entry s p = Some e"
  "resolve s p = NotFound \<longleftrightarrow> \<not> is_root p \<and> find_entry s p = None"
  by (auto simp: resolve_def split: option.splits)

text \<open>
  C7: \<open>exec_getattr\<close> reports, for the root, a directory (\<open>S_IFDIR\<close> and nothing else
  outside the nine permission bits) readable and searchable by owner, group and others,
  with one link and the mounter's uid and gid; for a path that resolves to an entry, a
  regular file whose nine permission bits are the entry's nine flags, with one link, the
  mounter's uid and gid (the callback never reads the caller's identity) and the
  configured size; and for a path that resolves to nothing it returns \<open>-ENOENT\<close>.
\<close>

theorem exec_getattr_reports:
  "(resolve s p = Root \<longrightarrow>
      (\<exists>st. exec_getattr os s p (Some st0) = (0, Some st, s) \<and>
        st_mode st AND NOT ACCESSPERMS = S_IFDIR \<and> st_mode st AND S_IFMT = S_IFDIR \<and>
        mode_perms (st_mode st) = ((True, False, True), (True, False, True), (True, False, True)) \<and>
        st_nlink st = 1 \<and> st_uid st = uid s \<and> st_gid st = gid s)) \<and>
   (\<forall>e. resolve s p = Entry e \<longrightarrow>
      (\<exists>st. exec_getattr os s p (Some st0) = (0, Some st, s) \<and>
        st_mode st AND NOT ACCESSPERMS = S_IFREG \<and> st_mode st AND S_IFMT = S_IFREG \<and>
        mode_perms (st_mode st) = entry_perms e \<and>
        st_nlink st = 1 \<and> st_uid st = uid s \<and> st_gid st = gid s \<and>
        st_size st = size_g s)) \<and>
   (resolve s p = NotFound \<longrightarrow> fst (exec_getattr os s p (Some st0)) = - ENOENT)"
proof (intro conjI allI impI)
  assume "resolve s p = Root"
  then have "is_root p" by (simp add: resolve_cases)
  from exec_getattr_root [OF this, of os s st0]
  show "\<exists>st. exec_getattr os s p (Some st0) = (0, Some st, s) \<and>
        st_mode st AND NOT ACCESSPERMS = S_IFDIR \<and> st_mode st AND S_IFMT = S_IFDIR \<and>
        mode_perms (st_mode st) = ((True, False, True), (True, False, True), (True, False, True)) \<and>
        st_nlink st = 1 \<and> st_uid st = uid s \<and> st_gid st = gid s"
    by blast
next
  fix e assume "resolve s p = Entry e"
  then have "\<not> is_root p" and "find_entry s p = Some e" by (simp_all add: resolve_cases)
  from exec_getattr_entry [OF this, of os st0]
  show "\<exists>st. exec_getattr os s p (Some st0) = (0, Some st, s) \<and>
        st_mode st AND NOT ACCESSPERMS = S_IFREG \<and> st_mode st AND S_IFMT = S_IFREG \<and>
        mode_perms (st_mode st) = entry_perms e \<and>
        st_nlink st = 1 \<and> st_uid st = uid s \<and> st_gid st = gid s \<and>
        st_size st = size_g s"
    by blast
next
  assume "resolve s p = NotFound"
  then have "\<not> is_root p" and "find_entry s p = None" by (simp_all add: resolve_cases)
  from exec_getattr_unknown [OF this, of os st0]
  show "fst (exec_getattr os s p (Some st0)) = - ENOENT" by simp
qed

lemma ex_resolve:
  "resolve ex_state ''/'' = Root"
  "resolve ex_state ''/sink'' = Entry ex_sink"
  "resolve ex_state ''/nope'' = NotFound"
  by (simp_all add: resolve_def is_root_def find_entry_def ex_state_def ex_hello_def ex_sink_def
      ex_shadowed_def)

theorem exec_getattr_reports_witness:
  "(\<exists>st. exec_getattr ex_os ex_state ''/'' (Some ex_stat) = (0, Some st, ex_state) \<and>
      st_mode st AND NOT ACCESSPERMS = S_IFDIR \<and> st_mode st AND S_IFMT = S_IFDIR \<and>
      mode_perms (st_mode st) = ((True, False, True), (True, False, True), (True, False, True)) \<and>
      st_nlink st = 1 \<and> st_uid st = 1000 \<and> st_gid st = 100) \<and>
   (\<exists>st. exec_getattr ex_os ex_state ''/sink'' (Some ex_stat) = (0, Some st, ex_state) \<and>
      st_mode st AND NOT ACCESSPERMS = S_IFREG \<and> st_mode st AND S_IFMT = S_IFREG \<and>
      mode_perms (st_mode st) = ((False, True, False), (False, True, True), (True, False, True)) \<and>
      st_nlink st = 1 \<and> st_uid st = 1000 \<and> st_gid st = 100 \<and> st_size st = 4096) \<and>
   fst (exec_getattr ex_os ex_state ''/nope'' (Some ex_stat)) = - ENOENT"
  using exec_getattr_reports [of ex_state "''/''" ex_os ex_stat]
    exec_getattr_reports [of ex_state "''/sink''" ex_os ex_stat]
    exec_getattr_reports [of ex_state "''/nope''" ex_os ex_stat]
  by (simp add: ex_resolve) (simp add: ex_state_def entry_perms_def ex_sink_def)

subsection \<open>flush and fsync\<close>

lemma exec_flush_cases:
  "exec_flush os s p fi =
     (case resolve s p of
        Root \<Rightarrow> (0, s)
      | NotFound \<Rightarrow> (- ENOENT, s)
      | Entry e \<Rightarrow>
          (case fi of
             None \<Rightarrow> (- 1, assert_log 105 ''exec_flush'' ''fi != NULL'' s)
           | Some f \<Rightarrow>
               if fh f = 0 then (- 1, assert_log 106 ''exec_flush'' ''fi->fh != 0'' s)
               else (fflush_r os (fh f), s\<lparr>calls := calls s @ [Fflush (fh f)]\<rparr>)))"
  by (simp add: exec_flush_def resolve_def split: option.splits)

lemma exec_fsync_cases:
  "exec_fsync os s p ds fi =
     (case resolve s p of
        Root \<Rightarrow> (0, s)
      | NotFound \<Rightarrow> (- ENOENT, s)
      | Entry e \<Rightarrow>
          (case fi of
             None \<Rightarrow> (- 1, assert_log 120 ''exec_fsync'' ''fi != NULL'' s)
           | Some f \<Rightarrow>
               if fh f = 0 then (- 1, assert_log 121 ''exec_fsync'' ''fi->fh != 0'' s)
               else (fsync_r os (fh f), s\<lparr>calls := calls s @ [Fsync (fh f)]\<rparr>)))"
  by (simp add: exec_fsync_def resolve_def split: option.splits)

text \<open>
  C8: on the root, \<open>exec_flush\<close> and \<open>exec_fsync\<close> return 0 and leave the state, and with
  it the trace of stream calls, as it was; on a path that resolves to nothing they return
  \<open>-ENOENT\<close>, again without a call; on a path that resolves to an entry, with a handle
  whose stream is not null, they make one call on that stream (\<open>fflush\<close>, or \<open>fsync\<close> of
  its descriptor) and return its result. \<open>exec_fsync\<close> ignores its datasync argument, and
  the two callbacks return the same value wherever the two library calls answer alike.
\<close>

theorem exec_flush_fsync_contract:
  "(resolve s p = Root \<longrightarrow>
      exec_flush os s p fi = (0, s) \<and> exec_fsync os s p ds fi = (0, s)) \<and>
   (resolve s p = NotFound \<longrightarrow>
      exec_flush os s p fi = (- ENOENT, s) \<and> exec_fsync os s p ds fi = (- ENOENT, s)) \<and>
   (\<forall>e f. resolve s p = Entry e \<and> fi = Some f \<and> fh f \<noteq> 0 \<longrightarrow>
      exec_flush os s p fi = (fflush_r os (fh f), s\<lparr>calls := calls s @ [Fflush (fh f)]\<rparr>) \<and>
      exec_fsync os s p ds fi = (fsync_r os (fh f), s\<lparr>calls := calls s @ [Fsync (fh f)]\<rparr>)) \<and>
   exec_fsync os s p ds fi = exec_fsync os s p ds' fi \<and>
   ((\<forall>h. fsync_r os h = fflush_r os h) \<longrightarrow>
      fst (exec_fsync os s p ds fi) = fst (exec_flush os s p fi))"
  by (simp add: exec_flush_cases exec_fsync_cases split: resolution.splits option.splits)

theorem exec_flush_fsync_contract_witness:
  "exec_flush ex_os ex_state ''/'' (Some ex_fi_open) = (0, ex_state) \<and>
   exec_fsync ex_os ex_state ''/'' 1 (Some ex_fi_open) = (0, ex_state) \<and>
   exec_flush ex_os ex_state ''/nope'' (Some ex_fi_open) = (- ENOENT, ex_state) \<and>
   exec_fsync ex_os ex_state ''/nope'' 0 (Some ex_fi_open) = (- ENOENT, ex_state) \<and>
   exec_flush ex_os ex_state ''/sink'' (Some ex_fi_open) =
     (0, ex_state\<lparr>calls := [Fflush 0x1000]\<rparr>) \<and>
   exec_fsync ex_os ex_state ''/sink'' 1 (Some ex_fi_open) =
     (0, ex_state\<lparr>calls := [Fsync 0x1000]\<rparr>) \<and>
   fst (exec_fsync ex_os ex_state ''/sink'' 1 (Some ex_fi_open)) =
     fst (exec_flush ex_os ex_state ''/sink'' (Some ex_fi_open))"
proof -
  have r: "resolve ex_state ''/'' = Root" "resolve ex_state ''/sink'' = Entry ex_sink"
    "resolve ex_state ''/nope'' = NotFound"
    by (simp_all add: resolve_def is_root_def find_entry_def ex_state_def ex_hello_def
        ex_sink_def ex_shadowed_def)
  have c: "calls ex_state = []" by (simp add: ex_state_def)
  have o: "fflush_r ex_os = (\<lambda>h. 0)" "fsync_r ex_os = (\<lambda>h. 0)" by (simp_all add: ex_os_def)
  have f: "fh ex_fi_open = 0x1000" by (simp add: ex_fi_open_def)
  show ?thesis
    using exec_flush_fsync_contract [of ex_state "''/''" ex_os "Some ex_fi_open" 1 0]
      exec_flush_fsync_contract [of ex_state "''/nope''" ex_os "Some ex_fi_open" 0 1]
      exec_flush_fsync_contract [of ex_state "''/sink''" ex_os "Some ex_fi_open" 1 0]
    by (simp add: r c o f)
qed

subsection \<open>The stubs\<close>

lemma untouched_LOG: "untouched s (LOG fmt args s)"
  by (simp add: untouched_def LOG_def)

lemma FAIL_STUB_rejects:
  "fst (FAIL_STUB func s p) = - EACCES \<and> untouched s (snd (FAIL_STUB func s p))"
  by (simp add: FAIL_STUB_def untouched_LOG)

lemma NOP_STUB_probe:
  "fst (NOP_STUB func s p) = (if resolve s p = NotFound then - ENOENT else 0) \<and>
   untouched s (snd (NOP_STUB func s p))"
  by (simp add: NOP_STUB_def Let_def untouched_LOG resolve_def split: option.splits)

text \<open>
  C9: every callback that would change the namespace (link and symlink, mknod, mkdir and
  rmdir, unlink, rename, chown and chmod, setxattr and removexattr) returns \<open>-EACCES\<close>,
  a failure, on every path and whatever its other arguments, and leaves the entry
  registry, the mount identity and the streams as they were: it only writes a log line.
\<close>

theorem fail_stubs_reject:
  "(fst (exec_link s p target) = - EACCES \<and> untouched s (snd (exec_link s p target))) \<and>
   (fst (exec_symlink s p target) = - EACCES \<and> untouched s (snd (exec_symlink s p target))) \<and>
   (fst (exec_mknod s p mode dev) = - EACCES \<and> untouched s (snd (exec_mknod s p mode dev))) \<and>
   (fst (exec_mkdir s p mode) = - EACCES \<and> untouched s (snd (exec_mkdir s p mode))) \<and>
   (fst (exec_rmdir s p) = - EACCES \<and> untouched s (snd (exec_rmdir s p))) \<and>
   (fst (exec_unlink s p) = - EACCES \<and> untouched s (snd (exec_unlink s p))) \<and>
   (fst (exec_rename s p new_name) = - EACCES \<and> untouched s (snd (exec_rename s p new_name))) \<and>
   (fst (exec_chown s p u g) = - EACCES \<and> untouched s (snd (exec_chown s p u g))) \<and>
   (fst (exec_chmod s p mode) = - EACCES \<and> untouched s (snd (exec_chmod s p mode))) \<and>
   (fst (exec_setxattr s p name val xflags) = - EACCES \<and>
      untouched s (snd (exec_setxattr s p name val xflags))) \<and>
   (fst (exec_removexattr s p name) = - EACCES \<and> untouched s (snd (exec_removexattr s p name))) \<and>
   - EACCES < 0"
  unfolding exec_link_def exec_symlink_def exec_mknod_def exec_mkdir_def exec_rmdir_def
    exec_unlink_def exec_rename_def exec_chown_def exec_chmod_def exec_setxattr_def
    exec_removexattr_def
  by (simp add: FAIL_STUB_rejects) (simp add: EACCES_def)

theorem fail_stubs_reject_witness:
  "fst (exec_unlink ex_state ''/hello'') = - EACCES \<and>
   entries (snd (exec_unlink ex_state ''/hello'')) = [ex_hello, ex_sink, ex_shadowed] \<and>
   fst (exec_chmod ex_state ''/'' 0x1FF) = - EACCES \<and>
   fst (exec_rename ex_state ''/nope'' ''/other'') = - EACCES \<and>
   entries (snd (exec_rename ex_state ''/nope'' ''/other'')) = [ex_hello, ex_sink, ex_shadowed]"
  using fail_stubs_reject [of ex_state "''/hello''" "[]" 0 0 "''/other''" 0 0 "[]" "[]" 0]
    fail_stubs_reject [of ex_state "''/''" "[]" "0x1FF" 0 "''/other''" 0 0 "[]" "[]" 0]
    fail_stubs_reject [of ex_state "''/nope''" "[]" 0 0 "''/other''" 0 0 "[]" "[]" 0]
  by (simp add: untouched_def) (simp add: ex_state_def)

text \<open>
  C10: the callbacks that generic tools probe (utime and utimens, truncate, releasedir and
  fsyncdir) return 0 whenever the path resolves to the root or to an entry and \<open>-ENOENT\<close>
  whenever it resolves to neither; in both cases they leave the entry registry, the mount
  identity and the streams as they were.
\<close>

theorem nop_stubs_probe:
  "(resolve s p \<noteq> NotFound \<longrightarrow>
      fst (exec_utime s p ubuf) = 0 \<and> fst (exec_utimens s p tv) = 0 \<and>
      fst (exec_truncate s p new_size) = 0 \<and> fst (exec_releasedir s p fi) = 0 \<and>
      fst (exec_fsyncdir s p datasync fi) = 0) \<and>
   (resolve s p = NotFound \<longrightarrow>
      fst (exec_utime s p ubuf) = - ENOENT \<and> fst (exec_utimens s p tv) = - ENOENT \<and>
      fst (exec_truncate s p new_size) = - ENOENT \<and> fst (exec_releasedir s p fi) = - ENOENT \<and>
      fst (exec_fsyncdir s p datasync fi) = - ENOENT) \<and>
   untouched s (snd (exec_utime s p ubuf)) \<and> untouched s (snd (exec_utimens s p tv)) \<and>
   untouched s (snd (exec_truncate s p new_size)) \<and>
   untouched s (snd (exec_releasedir s p fi)) \<and>
   untouched s (snd (exec_fsyncdir s p datasync fi))"
  unfolding exec_utime_def exec_utimens_def exec_truncate_def exec_releasedir_def
    exec_fsyncdir_def
  by (simp add: NOP_STUB_probe)

theorem nop_stubs_probe_witness:
  "fst (exec_utime ex_state ''/'' (0, 0)) = 0 \<and>
   fst (exec_utimens ex_state ''/sink'' ((0, 0), (0, 0))) = 0 \<and>
   fst (exec_truncate ex_state ''/hello'' 0) = 0 \<and>
   fst (exec_releasedir ex_state ''/'' None) = 0 \<and>
   fst (exec_fsyncdir ex_state ''/'' 0 None) = 0 \<and>
   fst (exec_utime ex_state ''/nope'' (0, 0)) = - ENOENT \<and>
   fst (exec_utimens ex_state ''nope'' ((0, 0), (0, 0))) = - ENOENT \<and>
   fst (exec_truncate ex_state ''/nope'' 0) = - ENOENT \<and>
   fst (exec_releasedir ex_state ''/nope'' None) = - ENOENT \<and>
   fst (exec_fsyncdir ex_state ''/nope'' 0 None) = - ENOENT \<and>
   entries (snd (exec_truncate ex_state ''/hello'' 0)) = entries ex_state"
proof -
  have r: "resolve ex_state ''/'' = Root" "resolve ex_state ''/sink'' = Entry ex_sink"
    "resolve ex_state ''/hello'' = Entry ex_hello"
    "resolve ex_state ''/nope'' = NotFound" "resolve ex_state ''nope'' = NotFound"
    by (simp_all add: resolve_def is_root_def find_entry_def ex_state_def ex_hello_def
        ex_sink_def ex_shadowed_def)
  show ?thesis
    using nop_stubs_probe [of ex_state "''/''" "(0, 0)" "((0, 0), (0, 0))" 0 None 0]
      nop_stubs_probe [of ex_state "''/sink''" "(0, 0)" "((0, 0), (0, 0))" 0 None 0]
      nop_stubs_probe [of ex_state "''/hello''" "(0, 0)" "((0, 0), (0, 0))" 0 None 0]
      nop_stubs_probe [of ex_state "''/nope''" "(0, 0)" "((0, 0), (0, 0))" 0 None 0]
      nop_stubs_probe [of ex_state "''nope''" "(0, 0)" "((0, 0), (0, 0))" 0 None 0]
    by (simp add: r untouched_def)
qed

subsection \<open>readdir\<close>

lemma map_fst_dirents: "map fst (dirents es) = map path es"
  by (rule nth_equalityI) (simp_all add: dirents_def)

lemma drop_dirents:
  "drop i (dirents es) = map (\<lambda>j. (path (es ! j), int j + 1)) [i..<length es]"
  by (simp add: dirents_def drop_map)

lemma readdir_loop_bounded:
  "filler = bounded_filler cap \<Longrightarrow>
     readdir_loop es filler i buf = buf @ take (cap - length buf) (drop i (dirents es))"
proof (induction es filler i buf rule: readdir_loop.induct)
  case (1 es filler i buf)
  show ?case
  proof (cases "i < length es")
    case False
    then show ?thesis by (simp add: drop_dirents)
  next
    case True
    then have d: "drop i (dirents es) = (path (es ! i), int i + 1) # drop (i + 1) (dirents es)"
      by (simp add: drop_dirents upt_conv_Cons)
    show ?thesis
    proof (cases "length buf < cap")
      case False
      with True 1 show ?thesis by (simp add: bounded_filler_def)
    next
      case room: True
      have "readdir_loop es filler i buf =
              readdir_loop es filler (i + 1) (buf @ [(path (es ! i), int i + 1)])"
        using True room 1(2) by (simp add: bounded_filler_def)
      also have "\<dots> = (buf @ [(path (es ! i), int i + 1)]) @
          take (cap - length (buf @ [(path (es ! i), int i + 1)])) (drop (i + 1) (dirents es))"
        using True room 1(2)
        by (intro 1(1)) (simp_all add: bounded_filler_def)
      also have "\<dots> = buf @ take (cap - length buf) (drop i (dirents es))"
        using room by (simp add: d take_Cons')
      finally show ?thesis .
    qed
  qed
qed


lemma readdir_loop_accepting:
  "(\<And>b name st off. fst (filler b name st off) = 0) \<Longrightarrow>
     readdir_loop es filler i buf =
       fold (\<lambda>(name, off) b. snd (filler b name None off)) (drop i (dirents es)) buf"
proof (induction es filler i buf rule: readdir_loop.induct)
  case (1 es filler i buf)
  show ?case
  proof (cases "i < length es")
    case False
    then show ?thesis by (simp add: drop_dirents)
  next
    case True
    then have d: "drop i (dirents es) = (path (es ! i), int i + 1) # drop (i + 1) (dirents es)"
      by (simp add: drop_dirents upt_conv_Cons)
    obtain r buf' where f: "filler buf (path (es ! i)) None (int i + 1) = (r, buf')"
      by (cases "filler buf (path (es ! i)) None (int i + 1)")
    with 1(2) [of buf "path (es ! i)" None "int i + 1"] have r: "r = 0" by simp
    have "readdir_loop es filler i buf = readdir_loop es filler (i + 1) buf'"
      using True f r by simp
    also have "\<dots> = fold (\<lambda>(name, off) b. snd (filler b name None off))
        (drop (i + 1) (dirents es)) buf'"
      using True f r 1(2) by (intro 1(1)) simp_all
    also have "\<dots> = fold (\<lambda>(name, off) b. snd (filler b name None off))
        (drop i (dirents es)) buf"
      using f by (simp add: d)
    finally show ?thesis .
  qed
qed

lemma signed_take_bit_31_id: "0 \<le> k \<Longrightarrow> k < 2 ^ 31 \<Longrightarrow> signed_take_bit 31 k = (k :: int)"
  by (intro signed_take_bit_int_eq_self) simp_all

lemma exec_readdir_root_accepting:
  assumes "0 \<le> k" and "k < 2 ^ 31"
    and "\<And>b name st off. fst (filler b name st off) = 0"
  shows "exec_readdir s ''/'' buf filler k =
    Some (0, fold (\<lambda>(name, off) b. snd (filler b name None off))
      (drop (nat k) (dirents (entries s))) buf)"
  using assms(1,2) signed_take_bit_31_id [OF assms(1,2)]
  by (simp add: exec_readdir_def is_root_def Let_def readdir_loop_accepting [OF assms(3)]
      del: readdir_loop.simps)

lemma exec_readdir_negative:
  "signed_take_bit 31 offset < 0 \<Longrightarrow> exec_readdir s ''/'' buf filler offset = None"
  by (simp add: exec_readdir_def is_root_def)

lemma exec_readdir_wraps:
  "exec_readdir s ''/'' buf filler (offset + 2 ^ 32) = exec_readdir s ''/'' buf filler offset"
proof -
  have "signed_take_bit 31 (offset + 2 ^ 32) = signed_take_bit 31 offset"
    by (simp add: signed_take_bit_eq_iff_take_bit_eq take_bit_eq_mod)
  then show ?thesis by (simp add: exec_readdir_def)
qed

lemma exec_readdir_not_root:
  "p \<noteq> ''/'' \<Longrightarrow> exec_readdir s p buf filler offset = Some (- EBADF, buf)"
  by (auto simp: exec_readdir_def is_root_def)

lemma exec_readdir_root_bounded:
  assumes "0 \<le> k" and "k < 2 ^ 31"
  shows "exec_readdir s ''/'' b (bounded_filler cap) k =
    Some (0, b @ take (cap - length b) (drop (nat k) (dirents (entries s))))"
proof -
  have "signed_take_bit 31 k = k"
    using assms by (rule signed_take_bit_31_id)
  then show ?thesis
    using assms
    by (simp add: exec_readdir_def is_root_def Let_def readdir_loop_bounded [OF refl]
        del: readdir_loop.simps)
qed

lemma readdir_loop_offer:
  "readdir_loop es filler i buf = offer filler buf (drop i (dirents es))"
proof (induction es filler i buf rule: readdir_loop.induct)
  case (1 es filler i buf)
  show ?case
  proof (cases "i < length es")
    case False
    then show ?thesis by (simp add: drop_dirents)
  next
    case True
    then have d: "drop i (dirents es) = (path (es ! i), int i + 1) # drop (i + 1) (dirents es)"
      by (simp add: drop_dirents upt_conv_Cons)
    obtain r buf' where f: "filler buf (path (es ! i)) None (int i + 1) = (r, buf')"
      by (cases "filler buf (path (es ! i)) None (int i + 1)")
    show ?thesis
    proof (cases "r = 0")
      case False
      with True f show ?thesis by (simp add: d)
    next
      case r: True
      have "readdir_loop es filler i buf = readdir_loop es filler (i + 1) buf'"
        using True f r by simp
      also have "\<dots> = offer filler buf' (drop (i + 1) (dirents es))"
        using True f r by (intro 1) simp_all
      also have "\<dots> = offer filler buf (drop i (dirents es))"
        using f r by (simp add: d)
      finally show ?thesis .
    qed
  qed
qed

lemma exec_readdir_root_offer:
  assumes "0 \<le> k" and "k < 2 ^ 31"
  shows "exec_readdir s ''/'' buf filler k =
    Some (0, offer filler buf (drop (nat k) (dirents (entries s))))"
  using assms(1) signed_take_bit_31_id [OF assms]
  by (simp add: exec_readdir_def is_root_def Let_def readdir_loop_offer del: readdir_loop.simps)

lemma fed_Nil: "fed filler buf [] = buf"
  by (simp add: fed_def)

lemma fed_Cons: "fed filler buf (x # xs) = fed filler (snd (filler buf (fst x) None (snd x))) xs"
  by (cases x) (simp add: fed_def)

lemma fed_snoc: "fed filler buf (xs @ [x]) = snd (filler (fed filler buf xs) (fst x) None (snd x))"
  by (cases x) (simp add: fed_def)

lemma offer_Cons:
  "offer filler buf (x # xs) =
     (if refuses filler buf x then snd (filler buf (fst x) None (snd x))
      else offer filler (snd (filler buf (fst x) None (snd x))) xs)"
  by (cases x; cases "filler buf (fst x) None (snd x)") (auto simp: refuses_def)

lemma offer_all_taken:
  "(\<And>j. j < length xs \<Longrightarrow> \<not> refuses filler (fed filler buf (take j xs)) (xs ! j)) \<Longrightarrow>
     offer filler buf xs = fed filler buf xs"
proof (induction xs arbitrary: buf)
  case Nil
  then show ?case by (simp add: fed_Nil)
next
  case (Cons x xs)
  from Cons.prems [of 0] have a: "\<not> refuses filler buf x" by (simp add: fed_Nil)
  have "offer filler (snd (filler buf (fst x) None (snd x))) xs =
      fed filler (snd (filler buf (fst x) None (snd x))) xs"
  proof (rule Cons.IH)
    fix j assume "j < length xs"
    with Cons.prems [of "Suc j"]
    show "\<not> refuses filler (fed filler (snd (filler buf (fst x) None (snd x))) (take j xs)) (xs ! j)"
      by (simp add: fed_Cons)
  qed
  with a show ?case by (simp add: offer_Cons fed_Cons)
qed

lemma offer_first_refusal:
  "n < length xs \<Longrightarrow>
   (\<And>j. j < n \<Longrightarrow> \<not> refuses filler (fed filler buf (take j xs)) (xs ! j)) \<Longrightarrow>
   refuses filler (fed filler buf (take n xs)) (xs ! n) \<Longrightarrow>
     offer filler buf xs = fed filler buf (take (Suc n) xs)"
proof (induction xs arbitrary: buf n)
  case Nil
  then show ?case by simp
next
  case (Cons x xs)
  show ?case
  proof (cases n)
    case 0
    with Cons.prems(3) show ?thesis by (simp add: offer_Cons fed_Cons fed_Nil)
  next
    case (Suc m)
    from Cons.prems(2) [of 0] Suc have a: "\<not> refuses filler buf x" by (simp add: fed_Nil)
    have "offer filler (snd (filler buf (fst x) None (snd x))) xs =
        fed filler (snd (filler buf (fst x) None (snd x))) (take (Suc m) xs)"
    proof (rule Cons.IH)
      show "m < length xs" using Cons.prems(1) Suc by simp
    next
      fix j assume "j < m"
      with Cons.prems(2) [of "Suc j"] Suc
      show "\<not> refuses filler (fed filler (snd (filler buf (fst x) None (snd x))) (take j xs)) (xs ! j)"
        by (simp add: fed_Cons)
    next
      from Cons.prems(3) Suc
      show "refuses filler (fed filler (snd (filler buf (fst x) None (snd x))) (take m xs)) (xs ! m)"
        by (simp add: fed_Cons)
    qed
    with a Suc show ?thesis by (simp add: offer_Cons fed_Cons)
  qed
qed

lemma offer_choosy:
  "offer (choosy_filler ok) b xs = b @ takeWhile (\<lambda>(name, off). ok name) xs"
  by (induction xs arbitrary: b) (auto simp: choosy_filler_def)

lemma offer_bounded:
  "offer (bounded_filler cap) b xs = b @ take (cap - length b) xs"
proof (induction xs arbitrary: b)
  case Nil
  then show ?case by simp
next
  case (Cons x xs)
  obtain name off where x: "x = (name, off)" by (cases x)
  show ?case
  proof (cases "length b < cap")
    case False
    then show ?thesis by (simp add: x bounded_filler_def)
  next
    case True
    then have "offer (bounded_filler cap) b (x # xs) = offer (bounded_filler cap) (b @ [x]) xs"
      by (simp add: x bounded_filler_def)
    also have "\<dots> = (b @ [x]) @ take (cap - length (b @ [x])) xs" by (rule Cons.IH)
    also have "\<dots> = b @ take (cap - length b) (x # xs)"
      using True by (simp add: take_Cons')
    finally show ?thesis .
  qed
qed

lemma exec_readdir_root_from:
  assumes "0 \<le> k" and "k < 2 ^ 31"
  shows "exec_readdir s ''/'' buf filler k =
    Some (0, offer filler buf (dirents_from (entries s) (nat k)))"
  using assms by (simp add: exec_readdir_root_offer dirents_from_def)

text \<open>
  C6, as amended: on any path but the root, \<open>exec_readdir\<close> returns \<open>-EBADF\<close> and leaves
  the buffer alone. On the root, for a start index \<open>k\<close> from 0 up to the largest \<open>int\<close>, it
  returns 0 after offering the entries from index \<open>k\<close> on to the filler, each once and in
  registry order, each with the offset of its successor, and it stops at the first entry
  the filler refuses, whatever the filler: when the entry at position \<open>n\<close> of that list is
  the first one refused, the filler has been called on the first \<open>n + 1\<close> of them and on
  no other, and when none is refused it has been called on all of them. So a filler that
  refuses by name receives the names before the first one it rejects, a filler with room
  for \<open>cap\<close> names receives as many as still fit, all of them when the room suffices, and
  a filler that never refuses receives all of them. The names offered are the stored
  paths from index \<open>k\<close> on.
\<close>

theorem exec_readdir_lists:
  "(p \<noteq> ''/'' \<longrightarrow> exec_readdir s p buf filler offset = Some (- EBADF, buf)) \<and>
   (0 \<le> k \<and> k < 2 ^ 31 \<longrightarrow>
      exec_readdir s ''/'' buf filler k =
        Some (0, offer filler buf (dirents_from (entries s) (nat k))) \<and>
      (\<forall>n. n < length (dirents_from (entries s) (nat k)) \<and>
           (\<forall>j<n. \<not> refuses filler (fed filler buf (take j (dirents_from (entries s) (nat k))))
                     (dirents_from (entries s) (nat k) ! j)) \<and>
           refuses filler (fed filler buf (take n (dirents_from (entries s) (nat k))))
             (dirents_from (entries s) (nat k) ! n) \<longrightarrow>
         exec_readdir s ''/'' buf filler k =
           Some (0, fed filler buf (take (Suc n) (dirents_from (entries s) (nat k))))) \<and>
      ((\<forall>j<length (dirents_from (entries s) (nat k)).
           \<not> refuses filler (fed filler buf (take j (dirents_from (entries s) (nat k))))
               (dirents_from (entries s) (nat k) ! j)) \<longrightarrow>
         exec_readdir s ''/'' buf filler k =
           Some (0, fed filler buf (dirents_from (entries s) (nat k)))) \<and>
      exec_readdir s ''/'' b (choosy_filler ok) k =
        Some (0, b @ takeWhile (\<lambda>(name, off). ok name) (dirents_from (entries s) (nat k))) \<and>
      exec_readdir s ''/'' b (bounded_filler cap) k =
        Some (0, b @ take (cap - length b) (dirents_from (entries s) (nat k))) \<and>
      (length b + (length (entries s) - nat k) \<le> cap \<longrightarrow>
         exec_readdir s ''/'' b (bounded_filler cap) k =
           Some (0, b @ dirents_from (entries s) (nat k)))) \<and>
   (0 \<le> k \<and> k < 2 ^ 31 \<and> (\<forall>b name st off. fst (filler b name st off) = 0) \<longrightarrow>
      exec_readdir s ''/'' buf filler k =
        Some (0, fold (\<lambda>(name, off) b. snd (filler b name None off))
          (dirents_from (entries s) (nat k)) buf)) \<and>
   dirents_from (entries s) (nat k) = drop (nat k) (dirents (entries s)) \<and>
   map fst (dirents_from (entries s) (nat k)) = drop (nat k) (map path (entries s)) \<and>
   map snd (dirents (entries s)) = map (\<lambda>i. int i + 1) [0..<length (entries s)]"
proof (intro conjI impI allI)
  assume "p \<noteq> ''/''"
  then show "exec_readdir s p buf filler offset = Some (- EBADF, buf)"
    by (rule exec_readdir_not_root)
next
  assume "0 \<le> k \<and> k < 2 ^ 31"
  then show "exec_readdir s ''/'' buf filler k =
      Some (0, offer filler buf (dirents_from (entries s) (nat k)))"
    by (simp add: exec_readdir_root_from)
next
  fix n
  assume k: "0 \<le> k \<and> k < 2 ^ 31"
    and h: "n < length (dirents_from (entries s) (nat k)) \<and>
      (\<forall>j<n. \<not> refuses filler (fed filler buf (take j (dirents_from (entries s) (nat k))))
                (dirents_from (entries s) (nat k) ! j)) \<and>
      refuses filler (fed filler buf (take n (dirents_from (entries s) (nat k))))
        (dirents_from (entries s) (nat k) ! n)"
  from h have "offer filler buf (dirents_from (entries s) (nat k)) =
      fed filler buf (take (Suc n) (dirents_from (entries s) (nat k)))"
    by (intro offer_first_refusal) simp_all
  with k show "exec_readdir s ''/'' buf filler k =
      Some (0, fed filler buf (take (Suc n) (dirents_from (entries s) (nat k))))"
    by (simp add: exec_readdir_root_from)
next
  assume k: "0 \<le> k \<and> k < 2 ^ 31"
    and h: "\<forall>j<length (dirents_from (entries s) (nat k)).
      \<not> refuses filler (fed filler buf (take j (dirents_from (entries s) (nat k))))
          (dirents_from (entries s) (nat k) ! j)"
  from h have "offer filler buf (dirents_from (entries s) (nat k)) =
      fed filler buf (dirents_from (entries s) (nat k))"
    by (intro offer_all_taken) simp
  with k show "exec_readdir s ''/'' buf filler k =
      Some (0, fed filler buf (dirents_from (entries s) (nat k)))"
    by (simp add: exec_readdir_root_from)
next
  assume "0 \<le> k \<and> k < 2 ^ 31"
  then show "exec_readdir s ''/'' b (choosy_filler ok) k =
      Some (0, b @ takeWhile (\<lambda>(name, off). ok name) (dirents_from (entries s) (nat k)))"
    by (simp add: exec_readdir_root_from offer_choosy)
next
  assume "0 \<le> k \<and> k < 2 ^ 31"
  then show "exec_readdir s ''/'' b (bounded_filler cap) k =
      Some (0, b @ take (cap - length b) (dirents_from (entries s) (nat k)))"
    by (simp add: exec_readdir_root_from offer_bounded)
next
  assume k: "0 \<le> k \<and> k < 2 ^ 31"
    and room: "length b + (length (entries s) - nat k) \<le> cap"
  have "length (dirents_from (entries s) (nat k)) = length (entries s) - nat k"
    by (simp add: dirents_from_def dirents_def)
  with room have "take (cap - length b) (dirents_from (entries s) (nat k)) =
      dirents_from (entries s) (nat k)"
    by (intro take_all) simp
  with k show "exec_readdir s ''/'' b (bounded_filler cap) k =
      Some (0, b @ dirents_from (entries s) (nat k))"
    by (simp add: exec_readdir_root_from offer_bounded)
next
  assume "0 \<le> k \<and> k < 2 ^ 31 \<and> (\<forall>b name st off. fst (filler b name st off) = 0)"
  then show "exec_readdir s ''/'' buf filler k =
      Some (0, fold (\<lambda>(name, off) b. snd (filler b name None off))
        (dirents_from (entries s) (nat k)) buf)"
    unfolding dirents_from_def by (intro exec_readdir_root_accepting) simp_all
next
  show "dirents_from (entries s) (nat k) = drop (nat k) (dirents (entries s))"
    by (simp add: dirents_from_def)
next
  show "map fst (dirents_from (entries s) (nat k)) = drop (nat k) (map path (entries s))"
    by (simp add: dirents_from_def drop_map [symmetric] map_fst_dirents)
next
  show "map snd (dirents (entries s)) = map (\<lambda>i. int i + 1) [0..<length (entries s)]"
    by (simp add: dirents_def comp_def)
qed

lemma ex_plain_dirents: "dirents (entries ex_plain) = [(''hello'', 1), (''sink'', 2)]"
  by (simp add: ex_plain_def dirents_def upt_rec ex_hello_def ex_sink_def)

lemma ex_state_dirents:
  "dirents (entries ex_state) = [(''hello'', 1), (''sink'', 2), (''hello'', 3)]"
  by (simp add: ex_state_def dirents_def upt_rec ex_hello_def ex_sink_def ex_shadowed_def)

theorem exec_readdir_lists_witness:
  "exec_readdir ex_plain ''/hello'' [(''x'', 7 :: int)] (bounded_filler 5) 0 =
     Some (- EBADF, [(''x'', 7)]) \<and>
   exec_readdir ex_plain ''/'' [] (bounded_filler 5) 0 = Some (0, [(''hello'', 1), (''sink'', 2)]) \<and>
   exec_readdir ex_plain ''/'' [] (bounded_filler 5) 1 = Some (0, [(''sink'', 2)]) \<and>
   exec_readdir ex_plain ''/'' [] (bounded_filler 5) 2 = Some (0, []) \<and>
   exec_readdir ex_plain ''/'' [] (bounded_filler 1) 0 = Some (0, [(''hello'', 1)]) \<and>
   exec_readdir ex_plain ''/'' [(''x'', 7)] unbounded_filler 1 = Some (0, [(''x'', 7), (''sink'', 2)]) \<and>
   exec_readdir ex_state ''/'' [] (choosy_filler (\<lambda>name. name \<noteq> ''sink'')) 0 =
     Some (0, [(''hello'', 1)]) \<and>
   exec_readdir ex_state ''/'' [] (budget_filler 12) 0 = Some (0, [(''hello'', 1), (''sink'', 2)])"
proof -
  have a: "exec_readdir ex_plain ''/hello'' [(''x'', 7 :: int)] (bounded_filler 5) 0 =
      Some (- EBADF, [(''x'', 7)])"
    using exec_readdir_lists [where p = "''/hello''" and s = ex_plain and buf = "[(''x'', 7 :: int)]"
        and filler = "bounded_filler 5" and offset = 0 and k = 0 and b = "[]" and cap = 5
        and ok = "\<lambda>name. True"]
    by simp
  have b: "exec_readdir ex_plain ''/'' [] (bounded_filler 5) 0 =
      Some (0, [(''hello'', 1), (''sink'', 2)])"
    using exec_readdir_lists [where p = "''/''" and s = ex_plain and buf = "[]"
        and filler = unbounded_filler and offset = 0 and k = 0 and b = "[]" and cap = 5
        and ok = "\<lambda>name. True"]
    by (simp add: ex_plain_dirents)
  have c: "exec_readdir ex_plain ''/'' [] (bounded_filler 5) 1 = Some (0, [(''sink'', 2)])"
    using exec_readdir_lists [where p = "''/''" and s = ex_plain and buf = "[]"
        and filler = unbounded_filler and offset = 0 and k = 1 and b = "[]" and cap = 5
        and ok = "\<lambda>name. True"]
    by (simp add: ex_plain_dirents)
  have d: "exec_readdir ex_plain ''/'' [] (bounded_filler 5) 2 = Some (0, [])"
    using exec_readdir_lists [where p = "''/''" and s = ex_plain and buf = "[]"
        and filler = unbounded_filler and offset = 0 and k = 2 and b = "[]" and cap = 5
        and ok = "\<lambda>name. True"]
    by (simp add: ex_plain_dirents)
  have e: "exec_readdir ex_plain ''/'' [] (bounded_filler 1) 0 = Some (0, [(''hello'', 1)])"
    using exec_readdir_lists [where p = "''/''" and s = ex_plain and buf = "[]"
        and filler = unbounded_filler and offset = 0 and k = 0 and b = "[]" and cap = 1
        and ok = "\<lambda>name. True"]
    by (simp add: ex_plain_dirents)
  have f: "exec_readdir ex_plain ''/'' [(''x'', 7)] unbounded_filler 1 =
      Some (0, [(''x'', 7), (''sink'', 2)])"
    using exec_readdir_lists [where p = "''/''" and s = ex_plain and buf = "[(''x'', 7)]"
        and filler = unbounded_filler and offset = 0 and k = 1 and b = "[]" and cap = 1
        and ok = "\<lambda>name. True"]
    by (simp add: ex_plain_dirents unbounded_filler_def)
  have g: "exec_readdir ex_state ''/'' [] (choosy_filler (\<lambda>name. name \<noteq> ''sink'')) 0 =
      Some (0, [(''hello'', 1)])"
    using exec_readdir_lists [where p = "''/''" and s = ex_state and buf = "[]"
        and filler = "choosy_filler (\<lambda>name. name \<noteq> ''sink'')" and offset = 0 and k = 0
        and b = "[]" and cap = 1 and ok = "\<lambda>name. True",
        THEN conjunct2, THEN conjunct1, THEN mp, THEN conjunct2, THEN conjunct1, THEN spec, of 1]
    by (simp add: dirents_from_def ex_state_dirents refuses_def fed_def choosy_filler_def)
  have h: "exec_readdir ex_state ''/'' [] (budget_filler 12) 0 =
      Some (0, [(''hello'', 1), (''sink'', 2)])"
    using exec_readdir_lists [where p = "''/''" and s = ex_state and buf = "[]"
        and filler = "budget_filler 12" and offset = 0 and k = 0 and b = "[]" and cap = 1
        and ok = "\<lambda>name. True"]
    by (simp add: ex_state_dirents budget_filler_def)
  from a b c d e f g h show ?thesis by simp
qed

text \<open>
  One call need not list every entry from its start index: with room for one name, the
  listing of the root from index 0 yields \<open>hello\<close> alone, not both entries. And the
  error on a path that is not the root is \<open>EBADF\<close>, which is not \<open>ENOTDIR\<close>.
\<close>

theorem exec_readdir_paging_counterexample:
  "exec_readdir ex_plain ''/'' [] (bounded_filler 1) 0 = Some (0, [(''hello'', 1)]) \<and>
   drop 0 (map path (entries ex_plain)) = [''hello'', ''sink''] \<and>
   exec_readdir ex_plain ''/hello'' [] (bounded_filler 1) 0 = Some (- EBADF, []) \<and>
   - EBADF \<noteq> - ENOTDIR"
proof -
  have "exec_readdir ex_plain ''/'' [] (bounded_filler 1) 0 = Some (0, [(''hello'', 1)])"
    by (simp add: exec_readdir_root_bounded ex_plain_dirents)
  moreover have "drop 0 (map path (entries ex_plain)) = [''hello'', ''sink'']"
    by (simp add: ex_plain_def ex_hello_def ex_sink_def)
  moreover have "exec_readdir ex_plain ''/hello'' [] (bounded_filler 1) 0 = Some (- EBADF, [])"
    by (simp add: exec_readdir_not_root)
  moreover have "- EBADF \<noteq> - ENOTDIR"
    by (simp add: EBADF_def ENOTDIR_def)
  ultimately show ?thesis by simp
qed

subsection \<open>read and write\<close>

lemma int_of_size_t_of_nat:
  assumes "k < 2 ^ 31"
  shows "int_of_size_t (word_of_nat k) = int k"
proof -
  have "k < 2 ^ 64" using assms by simp
  then have "take_bit 64 k = k" by (simp add: take_bit_nat_eq_self)
  then have "(ucast (word_of_nat k :: 64 word) :: 32 word) = word_of_nat k"
    by (simp add: unsigned_of_nat)
  moreover have "sint (word_of_nat k :: 32 word) = int k"
    using assms by (simp add: signed_of_nat signed_take_bit_int_eq_self)
  ultimately show ?thesis by (simp add: int_of_size_t_def)
qed

lemma exec_read_count:
  assumes "fh f \<noteq> 0" and "length (fst (fread_r os (fh f) n)) < 2 ^ 31"
  shows "fst (exec_read os s p n off (Some f)) = int (length (fst (fread_r os (fh f) n)))"
  using assms by (simp add: exec_read_def Let_def int_of_size_t_of_nat)

lemma exec_write_count:
  assumes "fh f \<noteq> 0" and "unat (fst (fwrite_r os (fh f) buf)) < 2 ^ 31"
  shows "fst (exec_write os s p buf off (Some f)) = int (unat (fst (fwrite_r os (fh f) buf)))"
  using assms int_of_size_t_of_nat [of "unat (fst (fwrite_r os (fh f) buf))"]
  by (simp add: exec_write_def Let_def)

text \<open>
  C4: a read whose \<open>fread\<close> meets an OS-level failure is not reported as one. \<open>fread\<close>
  answers a failure with a short count and the stream's error indicator, never with -1,
  so the test \<open>sz == -1\<close> does not fire and the callback returns the count: 0 when
  nothing was read, exactly as at the end of the stream, and 1 when one byte was read
  before the failure. (By \<open>exec_read_count\<close> the result is the count, hence not negative,
  for every request below 2 GiB.)
\<close>

theorem exec_read_error_returns_count:
  "snd (fread_r ex_os_read_error (fh ex_fi_open) 4096) \<and>
   fst (exec_read ex_os_read_error ex_state ''/hello'' 4096 0 (Some ex_fi_open)) = 0 \<and>
   \<not> snd (fread_r ex_os_read_eof (fh ex_fi_open) 4096) \<and>
   fst (exec_read ex_os_read_eof ex_state ''/hello'' 4096 0 (Some ex_fi_open)) = 0 \<and>
   snd (fread_r ex_os_read_short_error (fh ex_fi_open) 4096) \<and>
   fst (exec_read ex_os_read_short_error ex_state ''/hello'' 4096 0 (Some ex_fi_open)) = 1"
  by (simp add: exec_read_def ex_os_read_error_def ex_os_read_eof_def ex_os_read_short_error_def
      ex_os_def ex_fi_open_def Let_def int_of_size_t_def)

text \<open>
  C5: a write whose \<open>fwrite\<close> meets an OS-level failure, such as a broken pipe, is not
  reported as one. \<open>fwrite\<close> answers a failure with a short count and the stream's error
  indicator, never with -1, so the test \<open>sz == -1\<close> does not fire and the callback
  returns the count of bytes accepted: 0 or 2 of the 5 bytes here, the answers of a
  stream whose buffer these bytes overflow, so that \<open>fwrite\<close> has to write to the pipe.
\<close>

theorem exec_write_error_returns_count:
  "snd (fwrite_r ex_os_write_error (fh ex_fi_open) [1, 2, 3, 4, 5]) \<and>
   fst (exec_write ex_os_write_error ex_state ''/sink'' [1, 2, 3, 4, 5] 0 (Some ex_fi_open)) = 0 \<and>
   snd (fwrite_r ex_os_write_short_error (fh ex_fi_open) [1, 2, 3, 4, 5]) \<and>
   fst (exec_write ex_os_write_short_error ex_state ''/sink'' [1, 2, 3, 4, 5] 0
     (Some ex_fi_open)) = 2"
  by (simp add: exec_write_def ex_os_write_error_def ex_os_write_short_error_def
      ex_os_def ex_fi_open_def Let_def int_of_size_t_def)

end
